theory Spec2Isabelle
  imports Main "HOL-Library.Char_ord" "HOL-Library.List_Lexorder" "HOL-Library.Sublist"
    "HOL-Library.Multiset"
begin

section \<open>Go standard-library string and path functions used by the program\<close>

text \<open>
  A Go \<open>string\<close> is a sequence of bytes, as is an Isabelle \<open>string\<close>. The functions
  below follow the Go implementations for a Unix target (the path separator is \<open>/\<close>,
  there is no volume name); the names are the Go names with the package as prefix.
\<close>

definition isPathSeparator :: "char \<Rightarrow> bool" where
  "isPathSeparator c = (c = CHR ''/'')"

definition strings_HasSuffix :: "string \<Rightarrow> string \<Rightarrow> bool" where
  "strings_HasSuffix s suf =
     (length suf \<le> length s \<and> drop (length s - length suf) s = suf)"

definition strings_TrimSuffix :: "string \<Rightarrow> string \<Rightarrow> string" where
  "strings_TrimSuffix s suf =
     (if strings_HasSuffix s suf then take (length s - length suf) s else s)"

text \<open>
  \<open>filepath.Ext\<close>: the loop \<open>for i := len(path)-1; i >= 0 && !IsPathSeparator(path[i]); i--\<close>
  returns \<open>path[i:]\<close> at the first dot it meets and the empty string when it leaves the
  loop. The counter of \<open>ext_loop\<close> is \<open>i + 1\<close>.
\<close>

fun ext_loop :: "string \<Rightarrow> nat \<Rightarrow> string" where
  "ext_loop path 0 = []"
| "ext_loop path (Suc i) =
     (if isPathSeparator (path ! i) then []
      else if path ! i = CHR ''.'' then drop i path
      else ext_loop path i)"

definition filepath_Ext :: "string \<Rightarrow> string" where
  "filepath_Ext path = ext_loop path (length path)"

text \<open>
  \<open>filepath.Base\<close>: the empty path gives \<open>.\<close>; trailing separators are stripped; the
  text after the last separator is kept; a path of separators only gives \<open>/\<close>.
  The counter of \<open>base_loop\<close> is \<open>i + 1\<close> for the index \<open>i\<close> of the Go loop.
\<close>

fun stripTrailingSeparators :: "string \<Rightarrow> string" where
  "stripTrailingSeparators path =
     (if path \<noteq> [] \<and> isPathSeparator (last path)
      then stripTrailingSeparators (butlast path) else path)"

declare stripTrailingSeparators.simps [simp del]

fun base_loop :: "string \<Rightarrow> nat \<Rightarrow> nat" where
  "base_loop path 0 = 0"
| "base_loop path (Suc i) = (if isPathSeparator (path ! i) then Suc i else base_loop path i)"

definition filepath_Base :: "string \<Rightarrow> string" where
  "filepath_Base path =
     (if path = [] then ''.''
      else let p = stripTrailingSeparators path;
               p' = drop (base_loop p (length p)) p
           in if p' = [] then ''/'' else p')"

text \<open>
  \<open>strings.ReplaceAll\<close> for a non-empty pattern: the occurrences are replaced from left
  to right without overlap. The program calls it with the one-byte patterns \<open>-\<close> and
  \<open>_\<close> only; the empty pattern (Go inserts at every rune boundary) is not used and is
  mapped to the unchanged string here.
\<close>

fun strings_ReplaceAll :: "string \<Rightarrow> string \<Rightarrow> string \<Rightarrow> string" where
  "strings_ReplaceAll s old new =
     (if old = [] \<or> s = [] then s
      else if prefix old s then new @ strings_ReplaceAll (drop (length old) s) old new
      else hd s # strings_ReplaceAll (tl s) old new)"

declare strings_ReplaceAll.simps [simp del]

text \<open>
  \<open>strings.Title\<close> maps every rune that follows a separator (the start of the string
  counts as following a space) to its title case. For ASCII, letters, digits and the
  underscore are not separators, every other character is, and the title case of
  \<open>a..z\<close> is \<open>A..Z\<close>. What Go does on a string with a byte outside ASCII depends on the
  Unicode tables; that part is the parameter \<open>unicodeTitle\<close>.
\<close>

definition isASCII :: "char \<Rightarrow> bool" where
  "isASCII c = ((of_char c :: nat) < 128)"

definition isSeparator :: "char \<Rightarrow> bool" where
  "isSeparator r =
     (if CHR ''0'' \<le> r \<and> r \<le> CHR ''9'' then False
      else if CHR ''a'' \<le> r \<and> r \<le> CHR ''z'' then False
      else if CHR ''A'' \<le> r \<and> r \<le> CHR ''Z'' then False
      else if r = CHR ''_'' then False
      else True)"

definition toTitle :: "char \<Rightarrow> char" where
  "toTitle r =
     (if CHR ''a'' \<le> r \<and> r \<le> CHR ''z'' then char_of (of_char r - (32::nat)) else r)"

fun title_map :: "char \<Rightarrow> string \<Rightarrow> string" where
  "title_map prev [] = []"
| "title_map prev (r # rs) = (if isSeparator prev then toTitle r else r) # title_map r rs"

definition strings_Title :: "(string \<Rightarrow> string) \<Rightarrow> string \<Rightarrow> string" where
  "strings_Title unicodeTitle s =
     (if list_all isASCII s then title_map CHR '' '' s else unicodeTitle s)"

section \<open>internal/database: the page registry\<close>

record Page =
  Path :: string
  Title :: string
  IsVisible :: bool
  VisitCount :: int

text \<open>
  \<open>VisitCount\<close> is the column \<open>visit_count\<close> as it is read back. \<open>IncrementVisitCount\<close>, its
  only writer, is not modelled: no property below depends on the value of the counter
  (a new row has 0), and what SQLite stores once the 64-bit counter overflows is outside
  this type. \<open>renderPage\<close> records that it started the increment.
\<close>

text \<open>
  The table \<open>pages\<close> is a list of rows in insertion order; \<open>path TEXT PRIMARY KEY\<close> is
  the invariant \<open>primary_key\<close>. Every statement goes through the SQL driver, which can
  fail for reasons outside the program (a locked or unreadable database file): each
  operation takes a flag saying whether the driver fails on this call, and a failed
  statement leaves the table as it was.
\<close>

type_synonym pages = "Page list"

definition primary_key :: "pages \<Rightarrow> bool" where
  "primary_key tbl = distinct (map Path tbl)"

datatype error =
    DriverError
  | ErrNoRows
  | LstatError
  | ReadDirError
  | WalkFailed error
  | GitPullFailed string

definition pathToTitle :: "(string \<Rightarrow> string) \<Rightarrow> string \<Rightarrow> string" where
  "pathToTitle unicodeTitle path =
     (let base = strings_TrimSuffix path (filepath_Ext path);
          base = filepath_Base base;
          base = strings_ReplaceAll base ''-'' '' '';
          base = strings_ReplaceAll base ''_'' '' ''
      in strings_Title unicodeTitle base)"

text \<open>
  \<open>INSERT INTO pages (path, title) VALUES (?, ?) ON CONFLICT(path) DO NOTHING\<close>: the new
  row takes the column defaults \<open>is_visible = TRUE\<close> and \<open>visit_count = 0\<close>.
\<close>

definition UpsertPage ::
  "(string \<Rightarrow> string) \<Rightarrow> bool \<Rightarrow> string \<Rightarrow> pages \<Rightarrow> error option \<times> pages" where
  "UpsertPage unicodeTitle driverFails path tbl =
     (let title = pathToTitle unicodeTitle path
      in if driverFails then (Some DriverError, tbl)
         else if path \<in> set (map Path tbl) then (None, tbl)
         else (None, tbl @ [\<lparr>Path = path, Title = title, IsVisible = True, VisitCount = 0\<rparr>]))"

definition GetPageByPath :: "bool \<Rightarrow> string \<Rightarrow> pages \<Rightarrow> error + Page" where
  "GetPageByPath driverFails path tbl =
     (if driverFails then Inl DriverError
      else case find (\<lambda>p. Path p = path) tbl of
             None \<Rightarrow> Inl ErrNoRows
           | Some p \<Rightarrow> Inr p)"

definition GetAllPages :: "bool \<Rightarrow> pages \<Rightarrow> error + Page list" where
  "GetAllPages driverFails tbl =
     (if driverFails then Inl DriverError else Inr (sort_key Path tbl))"

text \<open>
  \<open>GetVisiblePages\<close>: the rows of
  \<open>SELECT path, title FROM pages WHERE is_visible = TRUE ORDER BY path\<close> (SQLite compares
  text byte by byte) are scanned one by one into a fresh \<open>Page\<close>, whose other fields keep
  the Go zero values, and the path is rewritten for display.
\<close>

definition selectVisible :: "pages \<Rightarrow> Page list" where
  "selectVisible tbl = sort_key Path (filter IsVisible tbl)"

fun scanVisible :: "Page list \<Rightarrow> Page list \<Rightarrow> Page list" where
  "scanVisible [] pgs = pgs"
| "scanVisible (row # rows) pgs =
     (let p = \<lparr>Path = Path row, Title = Title row, IsVisible = False, VisitCount = 0\<rparr>;
          p = p\<lparr>Path := strings_TrimSuffix (Path p) ''.md''\<rparr>;
          p = (if Path p = ''home'' then p\<lparr>Path := ''/''\<rparr> else p)
      in scanVisible rows (pgs @ [p]))"

definition GetVisiblePages :: "bool \<Rightarrow> pages \<Rightarrow> error + Page list" where
  "GetVisiblePages driverFails tbl =
     (if driverFails then Inl DriverError else Inr (scanVisible (selectVisible tbl) []))"

text \<open>
  \<open>UPDATE pages SET is_visible = NOT is_visible WHERE path = ?\<close>: the error returned is
  the driver's; an update that matches no row is a successful statement.
\<close>

definition ToggleVisibility :: "bool \<Rightarrow> string \<Rightarrow> pages \<Rightarrow> error option \<times> pages" where
  "ToggleVisibility driverFails path tbl =
     (if driverFails then (Some DriverError, tbl)
      else (None, map (\<lambda>p. if Path p = path then p\<lparr>IsVisible := \<not> IsVisible p\<rparr> else p) tbl))"

section \<open>internal/content: pulling the repository and reconciling the tree\<close>

text \<open>
  The working copy as \<open>filepath.WalkDir\<close> sees it: an entry is a directory whose
  \<open>ReadDir\<close> succeeds (with its entries in the order \<open>ReadDir\<close> returns them), a
  directory whose \<open>ReadDir\<close> fails, or anything else (\<open>d.IsDir()\<close> is false: a regular
  file, a symbolic link, which \<open>WalkDir\<close> does not follow, or a special file).
\<close>

datatype filekind = Regular | Symlink | Special

datatype fsnode =
    File filekind
  | Dir "(string \<times> fsnode) list"
  | UnreadableDir

datatype logline =
    LogSyncStart
  | LogFound string
  | LogUpsertFailed string
  | LogSyncFinished
  | LogPullFailed
  | LogPulled
  | LogSyncFailed
  | LogSyncComplete

text \<open>
  \<open>filepath.Rel(contentPath, path)\<close> followed by \<open>filepath.ToSlash\<close>, for the paths that
  \<open>WalkDir\<close> builds by joining entry names below the root: the names joined by \<open>/\<close>,
  and \<open>.\<close> for the root itself. (Entry names contain no separator.)
\<close>

fun relPath :: "string list \<Rightarrow> string" where
  "relPath [] = ''.''"
| "relPath [n] = n"
| "relPath (n # m # ns) = n @ ''/'' @ relPath (m # ns)"

text \<open>
  The body of the \<open>WalkDirFunc\<close> of \<open>Sync\<close> for a call with \<open>err == nil\<close>: it returns
  \<open>nil\<close> in every case, so only the state is returned. A call with \<open>err != nil\<close> returns
  that error and changes nothing; it is a branch of \<open>walkDir\<close> and of \<open>Sync\<close>.
\<close>

definition syncVisit ::
  "(string \<Rightarrow> string) \<Rightarrow> (string \<Rightarrow> bool) \<Rightarrow> string list \<Rightarrow> string \<Rightarrow> bool \<Rightarrow>
   pages \<times> logline list \<Rightarrow> pages \<times> logline list" where
  "syncVisit unicodeTitle upsertFails comps name isDir st =
     (if \<not> isDir \<and> strings_HasSuffix name ''.md'' then
        (let rel = relPath comps;
             lg = snd st @ [LogFound rel];
             r = UpsertPage unicodeTitle (upsertFails rel) rel (fst st)
         in case fst r of
              Some e \<Rightarrow> (snd r, lg @ [LogUpsertFailed rel])
            | None \<Rightarrow> (snd r, lg))
      else st)"

text \<open>
  \<open>walkDir\<close> of \<open>path/filepath\<close>: the function is called on the entry; a directory is then
  read, a failing \<open>ReadDir\<close> is reported to the function (which returns the error, so the
  walk stops), and the entries are walked in order, the first error ending the walk.
\<close>

fun walkDir ::
  "(string \<Rightarrow> string) \<Rightarrow> (string \<Rightarrow> bool) \<Rightarrow> string list \<Rightarrow> string \<Rightarrow> fsnode \<Rightarrow>
   pages \<times> logline list \<Rightarrow> error option \<times> (pages \<times> logline list)"
and walkEntries ::
  "(string \<Rightarrow> string) \<Rightarrow> (string \<Rightarrow> bool) \<Rightarrow> string list \<Rightarrow> (string \<times> fsnode) list \<Rightarrow>
   pages \<times> logline list \<Rightarrow> error option \<times> (pages \<times> logline list)" where
  "walkDir u uf comps name (File k) st = (None, syncVisit u uf comps name False st)"
| "walkDir u uf comps name UnreadableDir st =
     (Some ReadDirError, syncVisit u uf comps name True st)"
| "walkDir u uf comps name (Dir es) st =
     walkEntries u uf comps es (syncVisit u uf comps name True st)"
| "walkEntries u uf comps [] st = (None, st)"
| "walkEntries u uf comps (e # es) st =
     (case walkDir u uf (comps @ [fst e]) (fst e) (snd e) st of
        (Some err, st') \<Rightarrow> (Some err, st')
      | (None, st') \<Rightarrow> walkEntries u uf comps es st')"

text \<open>
  \<open>Sync(contentPath, db)\<close>. The root is \<open>None\<close> when \<open>os.Lstat(contentPath)\<close> fails (the
  directory is missing): \<open>WalkDir\<close> then calls the function with that error. The result
  is the returned error, the table and the log lines written.
\<close>

definition Sync ::
  "(string \<Rightarrow> string) \<Rightarrow> (string \<Rightarrow> bool) \<Rightarrow> string \<Rightarrow> fsnode option \<Rightarrow> pages \<Rightarrow>
   error option \<times> pages \<times> logline list" where
  "Sync unicodeTitle upsertFails rootName root tbl =
     (case root of
        None \<Rightarrow> (Some (WalkFailed LstatError), tbl, [LogSyncStart])
      | Some node \<Rightarrow>
          (case walkDir unicodeTitle upsertFails [] rootName node (tbl, [LogSyncStart]) of
             (Some err, st) \<Rightarrow> (Some (WalkFailed err), fst st, snd st)
           | (None, st) \<Rightarrow> (None, fst st, snd st @ [LogSyncFinished])))"

text \<open>
  \<open>PullRepo\<close> runs \<open>git pull\<close> in the working copy. The external process is the
  parameter \<open>gitPull\<close>: it returns the diagnostic output when it fails, and the working
  copy it leaves behind.
\<close>

definition PullRepo ::
  "(fsnode option \<Rightarrow> string option \<times> fsnode option) \<Rightarrow> fsnode option \<Rightarrow>
   error option \<times> fsnode option" where
  "PullRepo gitPull wt =
     (case gitPull wt of
        (Some output, wt') \<Rightarrow> (Some (GitPullFailed output), wt')
      | (None, wt') \<Rightarrow> (None, wt'))"

section \<open>internal/server: the HTTP handlers\<close>

record Response =
  StatusCode :: nat
  Headers :: "(string \<times> string) list"
  RespBody :: string

text \<open>
  A response is the status, the headers the handler sets (under the canonical key that
  \<open>Header.Set\<close> stores) and the body it writes. \<open>http.Error\<close> sets two headers and writes
  the message followed by a newline, with the given status.
\<close>

definition http_Error :: "string \<Rightarrow> nat \<Rightarrow> Response" where
  "http_Error msg code =
     \<lparr>StatusCode = code,
      Headers = [(''Content-Type'', ''text/plain; charset=utf-8''),
                 (''X-Content-Type-Options'', ''nosniff'')],
      RespBody = msg @ [CHR 0x0A]\<rparr>"

subsection \<open>The webhook\<close>

text \<open>
  A delivery: the values of the header \<open>X-Hub-Signature-256\<close> (none when the header is
  missing) and the result of \<open>io.ReadAll(r.Body)\<close> (\<open>None\<close> when reading fails).
  \<open>Header.Get\<close> returns the first value, and the empty string when there is none.
\<close>

record Delivery =
  SignatureHeader :: "string list"
  RawBody :: "string option"

definition Header_Get :: "string list \<Rightarrow> string" where
  "Header_Get vs = (case vs of [] \<Rightarrow> [] | v # _ \<Rightarrow> v)"

text \<open>
  \<open>hex.EncodeToString\<close>: every byte \<open>v\<close> becomes \<open>hextable[v>>4]\<close>, \<open>hextable[v&0x0f]\<close>.
\<close>

definition hextable :: string where
  "hextable = ''0123456789abcdef''"

fun hex_EncodeToString :: "string \<Rightarrow> string" where
  "hex_EncodeToString [] = []"
| "hex_EncodeToString (v # src) =
     hextable ! ((of_char v :: nat) div 16) # hextable ! ((of_char v :: nat) mod 16)
       # hex_EncodeToString src"

text \<open>
  \<open>hmac.Equal\<close> is \<open>subtle.ConstantTimeCompare\<close>: unequal lengths give false, otherwise
  every pair of bytes is visited and the comparison holds when no pair differs.
\<close>

fun constantTimeLoop :: "string \<Rightarrow> string \<Rightarrow> bool \<Rightarrow> bool" where
  "constantTimeLoop (a # x) (b # y) differs = constantTimeLoop x y (differs \<or> a \<noteq> b)"
| "constantTimeLoop _ _ differs = differs"

definition hmac_Equal :: "string \<Rightarrow> string \<Rightarrow> bool" where
  "hmac_Equal x y = (if length x \<noteq> length y then False else \<not> constantTimeLoop x y False)"

text \<open>
  The decoded payload: \<open>json.Unmarshal(body, &payload)\<close> with \<open>payload\<close> a
  \<open>map[string]interface{}\<close>. The decoder belongs to the Go library and is the parameter
  \<open>jsonUnmarshal\<close>: \<open>None\<close> when it returns an error, otherwise the map. The values are the
  dynamic types the decoder produces; numbers are \<open>float64\<close>, an uninterpreted type.
\<close>

typedecl float64

datatype jvalue =
    JNull
  | JBool bool
  | JNumber float64
  | JString string
  | JArray "jvalue list"
  | JObject "(string \<times> jvalue) list"

type_synonym payload = "string \<Rightarrow> jvalue option"

text \<open>\<open>ref, ok := payload["ref"].(string)\<close>\<close>

definition refOf :: "payload \<Rightarrow> string \<times> bool" where
  "refOf pl = (case pl ''ref'' of Some (JString s) \<Rightarrow> (s, True) | _ \<Rightarrow> ([], False))"

text \<open>
  \<open>handleWebhook\<close>. The keyed hash \<open>HMAC-SHA256\<close> (key, message, 32-byte digest) belongs to
  the Go library and is the parameter \<open>hmacSHA256\<close>. The result is the response and
  whether the handler started the background goroutine (\<open>go func() {...}()\<close>) before it
  returned.
\<close>

definition handleWebhook ::
  "(string \<Rightarrow> string \<Rightarrow> string) \<Rightarrow> (string \<Rightarrow> payload option) \<Rightarrow> string \<Rightarrow> Delivery \<Rightarrow>
   Response \<times> bool" where
  "handleWebhook hmacSHA256 jsonUnmarshal secret r =
     (let signature = Header_Get (SignatureHeader r)
      in if signature = [] then (http_Error ''Missing signature'' 400, False)
         else case RawBody r of
           None \<Rightarrow> (http_Error ''Cannot read body'' 500, False)
         | Some body \<Rightarrow>
            (let expectedMAC = ''sha256='' @ hex_EncodeToString (hmacSHA256 secret body)
             in if \<not> hmac_Equal signature expectedMAC
                then (http_Error ''Invalid signature'' 403, False)
                else case jsonUnmarshal body of
                  None \<Rightarrow> (http_Error ''Invalid payload'' 400, False)
                | Some pl \<Rightarrow>
                   (let ref = fst (refOf pl); ok = snd (refOf pl)
                    in if \<not> ok \<or> (ref \<noteq> ''refs/heads/main'' \<and> ref \<noteq> ''refs/heads/master'')
                       then (\<lparr>StatusCode = 200, Headers = [],
                              RespBody = ''Payload received, but not for main/master branch. Ignoring.''\<rparr>,
                             False)
                       else (\<lparr>StatusCode = 202, Headers = [],
                              RespBody = ''Webhook accepted. Processing update.''\<rparr>,
                             True))))"

text \<open>
  The goroutine the handler starts: pull, and reconcile when the pull succeeded. Its
  errors go to the log only. The world it acts on is the working copy, the table and the
  log.
\<close>

record World =
  worktree :: "fsnode option"
  registry :: pages
  logged :: "logline list"

definition webhookUpdate ::
  "(string \<Rightarrow> string) \<Rightarrow> (fsnode option \<Rightarrow> string option \<times> fsnode option) \<Rightarrow>
   (string \<Rightarrow> bool) \<Rightarrow> string \<Rightarrow> World \<Rightarrow> World" where
  "webhookUpdate unicodeTitle gitPull upsertFails rootName w =
     (case PullRepo gitPull (worktree w) of
        (Some err, wt) \<Rightarrow> w\<lparr>worktree := wt, logged := logged w @ [LogPullFailed]\<rparr>
      | (None, wt) \<Rightarrow>
          (case Sync unicodeTitle upsertFails rootName wt (registry w) of
             (Some err, tbl, lg) \<Rightarrow>
               w\<lparr>worktree := wt, registry := tbl,
                 logged := logged w @ [LogPulled] @ lg @ [LogSyncFailed]\<rparr>
           | (None, tbl, lg) \<Rightarrow>
               w\<lparr>worktree := wt, registry := tbl,
                 logged := logged w @ [LogPulled] @ lg @ [LogSyncComplete]\<rparr>))"

text \<open>
  One delivery served to the end: the response the caller receives, and the world after
  the goroutine (when one was started) has run.
\<close>

definition serveWebhook ::
  "(string \<Rightarrow> string \<Rightarrow> string) \<Rightarrow> (string \<Rightarrow> payload option) \<Rightarrow> string \<Rightarrow>
   (string \<Rightarrow> string) \<Rightarrow> (fsnode option \<Rightarrow> string option \<times> fsnode option) \<Rightarrow>
   (string \<Rightarrow> bool) \<Rightarrow> string \<Rightarrow> Delivery \<Rightarrow> World \<Rightarrow> Response \<times> World" where
  "serveWebhook hmacSHA256 jsonUnmarshal secret unicodeTitle gitPull upsertFails rootName r w =
     (let res = handleWebhook hmacSHA256 jsonUnmarshal secret r
      in (fst res,
          if snd res then webhookUpdate unicodeTitle gitPull upsertFails rootName w else w))"

text \<open>
  Deliveries served concurrently. Every goroutine started by \<open>handleWebhook\<close> is an
  operation that is pulling, then (after a successful pull) reconciling, then done; the handler
  and the goroutine take no lock, so any operation may take its next step at any time.
\<close>

datatype phase = Pulling | Reconciling | Finished

inductive step ::
  "(string \<Rightarrow> string \<Rightarrow> string) \<Rightarrow> (string \<Rightarrow> payload option) \<Rightarrow> string \<Rightarrow>
   phase list \<Rightarrow> phase list \<Rightarrow> bool"
  for hmacSHA256 :: "string \<Rightarrow> string \<Rightarrow> string"
  and jsonUnmarshal :: "string \<Rightarrow> payload option"
  and secret :: string where
  deliver: "snd (handleWebhook hmacSHA256 jsonUnmarshal secret r) \<Longrightarrow>
     step hmacSHA256 jsonUnmarshal secret ts (ts @ [Pulling])"
| ignore: "\<not> snd (handleWebhook hmacSHA256 jsonUnmarshal secret r) \<Longrightarrow>
     step hmacSHA256 jsonUnmarshal secret ts ts"
| pull_ok: "i < length ts \<Longrightarrow> ts ! i = Pulling \<Longrightarrow>
     step hmacSHA256 jsonUnmarshal secret ts (ts[i := Reconciling])"
| pull_failed: "i < length ts \<Longrightarrow> ts ! i = Pulling \<Longrightarrow>
     step hmacSHA256 jsonUnmarshal secret ts (ts[i := Finished])"
| sync_returns: "i < length ts \<Longrightarrow> ts ! i = Reconciling \<Longrightarrow>
     step hmacSHA256 jsonUnmarshal secret ts (ts[i := Finished])"

definition inProgress :: "phase \<Rightarrow> bool" where
  "inProgress p = (p = Pulling \<or> p = Reconciling)"

subsection \<open>Serving a page\<close>

text \<open>
  What \<open>renderPage\<close> reads from outside the registry: the file below the content
  directory, the markdown converter and the template. They are parameters, as are the
  driver failures of the two queries.
\<close>

datatype fileresult = OpenFails | ReadFails | Content string

record RenderEnv =
  getPageFails :: bool
  contentFile :: "string \<Rightarrow> fileresult"
  mdConvert :: "string \<Rightarrow> string option"
  navFails :: bool
  executeTemplate :: "string \<Rightarrow> string \<Rightarrow> string \<Rightarrow> Page list \<Rightarrow> Response"

datatype effect = OpenFile string | StartedIncrement string

text \<open>
  \<open>render\<close>: the navigation is fetched, then the template is executed (the parameter gives
  the response it writes, for the template name, title, content and navigation).
\<close>

definition render :: "RenderEnv \<Rightarrow> pages \<Rightarrow> string \<Rightarrow> string \<Rightarrow> string \<Rightarrow> Response" where
  "render env tbl name title html =
     (case GetVisiblePages (navFails env) tbl of
        Inl err \<Rightarrow> http_Error ''Could not fetch navigation'' 500
      | Inr navPages \<Rightarrow> executeTemplate env name title html navPages)"

definition renderPage :: "RenderEnv \<Rightarrow> pages \<Rightarrow> string \<Rightarrow> Response \<times> effect list" where
  "renderPage env tbl pagePath =
     (case GetPageByPath (getPageFails env) pagePath tbl of
        Inl err \<Rightarrow> (http_Error ''Page not found'' 404, [])
      | Inr page \<Rightarrow>
          if \<not> IsVisible page then (http_Error ''Page not found'' 404, [])
          else case contentFile env (Path page) of
            OpenFails \<Rightarrow>
              (http_Error ''Could not read page content'' 500, [OpenFile (Path page)])
          | ReadFails \<Rightarrow>
              (http_Error ''Could not read page content'' 500, [OpenFile (Path page)])
          | Content mdContent \<Rightarrow>
              (case mdConvert env mdContent of
                 None \<Rightarrow> (http_Error ''Could not render page'' 500, [OpenFile (Path page)])
               | Some html \<Rightarrow>
                   (render env tbl ''page.html'' (Title page) html,
                    [OpenFile (Path page), StartedIncrement (Path page)])))"

subsection \<open>The administration toggle\<close>

text \<open>
  \<open>chi.URLParam(r, key)\<close> searches the URL parameters of the routing context from the
  last to the first and returns the empty string when the key is not bound.
\<close>

type_synonym urlparams = "(string \<times> string) list"

definition chi_URLParam :: "urlparams \<Rightarrow> string \<Rightarrow> string" where
  "chi_URLParam params key =
     (case find (\<lambda>kv. fst kv = key) (rev params) of None \<Rightarrow> [] | Some kv \<Rightarrow> snd kv)"

text \<open>
  The parameters a request \<open>POST /admin/pages/<segment>/toggle\<close> carries when it reaches
  the handler registered by \<open>RegisterRoutes\<close>: the sub-router mounted at \<open>/admin\<close> clears
  the wildcard that connected it, and the pattern \<open>/pages/{pagePath}/toggle\<close> binds the
  segment to \<open>pagePath\<close>.
\<close>

definition toggleRouteParams :: "string \<Rightarrow> urlparams" where
  "toggleRouteParams segment = [(''*'', []), (''pagePath'', segment)]"

text \<open>
  \<open>handleAdminToggleVisibility\<close>: the response, the table, and the paths with which
  \<open>ToggleVisibility\<close> was called.
\<close>

definition handleAdminToggleVisibility ::
  "bool \<Rightarrow> urlparams \<Rightarrow> pages \<Rightarrow> Response \<times> pages \<times> string list" where
  "handleAdminToggleVisibility driverFails params tbl =
     (let pagePath = chi_URLParam params ''*''
      in if pagePath = [] then (http_Error ''Page path is required'' 400, tbl, [])
         else
           (let pagePath = (if \<not> strings_HasSuffix pagePath ''.md''
                            then pagePath @ ''.md'' else pagePath);
                res = ToggleVisibility driverFails pagePath tbl
            in case fst res of
                 Some err \<Rightarrow>
                   (http_Error ''Failed to toggle visibility'' 500, snd res, [pagePath])
               | None \<Rightarrow>
                   (\<lparr>StatusCode = 200, Headers = [(''Hx-Redirect'', ''/admin/dashboard'')],
                     RespBody = []\<rparr>, snd res, [pagePath])))"

section \<open>Auxiliary definitions for the stated properties\<close>

subsection \<open>Title derivation in the words of the specification\<close>










subsection \<open>The navigation list in the words of the specification\<close>

text \<open>
  The display form of a stored path: \<open>home.md\<close> is shown as \<open>/\<close>, any other path
  loses its \<open>.md\<close> extension. A navigation entry carries the display path and the title;
  the two other fields of the Go struct are not scanned and keep their zero values.
\<close>

definition displayPath :: "string \<Rightarrow> string" where
  "displayPath p =
     (if p = ''home.md'' then ''/''
      else if strings_HasSuffix p ''.md'' then take (length p - length ''.md'') p else p)"

definition navEntry :: "Page \<Rightarrow> Page" where
  "navEntry row = \<lparr>Path = displayPath (Path row), Title = Title row, IsVisible = False, VisitCount = 0\<rparr>"

definition exampleRegistry :: pages where
  "exampleRegistry =
     [\<lparr>Path = ''home.md'', Title = ''Home'', IsVisible = True, VisitCount = 3\<rparr>,
      \<lparr>Path = ''draft.md'', Title = ''Draft'', IsVisible = False, VisitCount = 0\<rparr>,
      \<lparr>Path = ''blog/post.md'', Title = ''Post'', IsVisible = True, VisitCount = 1\<rparr>]"

subsection \<open>The content tree\<close>

text \<open>
  A tree can be enumerated when no directory in it fails to be read. Its markdown files
  are the entries that are not directories and whose name ends with \<open>.md\<close> (regular
  files among them), given by their paths relative to the root, in the order of the
  walk. \<open>upsertFound\<close> is what reconciling one such path does to the table and the log.
\<close>

fun readable :: "fsnode \<Rightarrow> bool"
and readableEntries :: "(string \<times> fsnode) list \<Rightarrow> bool" where
  "readable (File k) = True"
| "readable UnreadableDir = False"
| "readable (Dir es) = readableEntries es"
| "readableEntries [] = True"
| "readableEntries (e # es) = (readable (snd e) \<and> readableEntries es)"

fun markdownFiles :: "string list \<Rightarrow> string \<Rightarrow> fsnode \<Rightarrow> string list"
and markdownEntries :: "string list \<Rightarrow> (string \<times> fsnode) list \<Rightarrow> string list" where
  "markdownFiles comps name (File k) =
     (if strings_HasSuffix name ''.md'' then [relPath comps] else [])"
| "markdownFiles comps name UnreadableDir = []"
| "markdownFiles comps name (Dir es) = markdownEntries comps es"
| "markdownEntries comps [] = []"
| "markdownEntries comps (e # es) =
     markdownFiles (comps @ [fst e]) (fst e) (snd e) @ markdownEntries comps es"

text \<open>
  The entries of a tree, each with the names that lead to it from the root, and the name
  of an entry (the root has the name of the content directory).
\<close>

inductive entryAt :: "fsnode \<Rightarrow> string list \<Rightarrow> fsnode \<Rightarrow> bool" where
  here: "entryAt n [] n"
| below: "(name, child) \<in> set es \<Longrightarrow> entryAt child comps n \<Longrightarrow>
          entryAt (Dir es) (name # comps) n"

definition entryName :: "string \<Rightarrow> string list \<Rightarrow> string" where
  "entryName rootName comps = (if comps = [] then rootName else last comps)"

definition upsertFound ::
  "(string \<Rightarrow> string) \<Rightarrow> (string \<Rightarrow> bool) \<Rightarrow> pages \<times> logline list \<Rightarrow> string \<Rightarrow>
   pages \<times> logline list" where
  "upsertFound u uf st p =
     (snd (UpsertPage u (uf p) p (fst st)),
      snd st @ LogFound p # (if uf p then [LogUpsertFailed p] else []))"

subsection \<open>The webhook signature\<close>

text \<open>
  The string a delivery must carry in its signature header, and the two responses with
  which \<open>handleWebhook\<close> turns a delivery down because of its signature.
\<close>

definition expectedSignature :: "(string \<Rightarrow> string \<Rightarrow> string) \<Rightarrow> string \<Rightarrow> string \<Rightarrow> string" where
  "expectedSignature hmacSHA256 secret body =
     ''sha256='' @ hex_EncodeToString (hmacSHA256 secret body)"


subsection \<open>Concrete parameters for the examples\<close>

text \<open>
  Stand-ins for the external parts, used only to run the model on concrete inputs: a
  keyed function in place of HMAC-SHA256, a decoder that knows two bodies, a \<open>git pull\<close>
  that succeeds and leaves one markdown file, one that fails, and a rendering environment.
\<close>

definition demoHmac :: "string \<Rightarrow> string \<Rightarrow> string" where
  "demoHmac key msg = key @ msg"

definition mainPayload :: payload where
  "mainPayload k = (if k = ''ref'' then Some (JString ''refs/heads/main'') else None)"

definition developPayload :: payload where
  "developPayload k = (if k = ''ref'' then Some (JString ''refs/heads/develop'') else None)"

definition demoUnmarshal :: "string \<Rightarrow> payload option" where
  "demoUnmarshal body =
     (if body = ''main'' then Some mainPayload
      else if body = ''develop'' then Some developPayload
      else None)"

definition demoGit :: "fsnode option \<Rightarrow> string option \<times> fsnode option" where
  "demoGit wt = (None, Some (Dir [(''home.md'', File Regular)]))"

definition demoGitFails :: "fsnode option \<Rightarrow> string option \<times> fsnode option" where
  "demoGitFails wt = (Some ''fatal'', wt)"

definition demoWorld :: World where
  "demoWorld = \<lparr>worktree = None, registry = [], logged = []\<rparr>"

definition demoEnv :: RenderEnv where
  "demoEnv = \<lparr>getPageFails = False, contentFile = (\<lambda>p. Content ''text''),
     mdConvert = (\<lambda>s. Some s), navFails = False,
     executeTemplate = (\<lambda>name title html nav. \<lparr>StatusCode = 200, Headers = [], RespBody = html\<rparr>)\<rparr>"

definition demoTree :: fsnode where
  "demoTree =
     Dir [(''blog'', Dir [(''notes.txt'', File Regular), (''post.md'', File Regular)]),
          (''home.md'', File Regular),
          (''img'', Dir [(''logo.png'', File Regular)])]"

definition demoBrokenTree :: fsnode where
  "demoBrokenTree =
     Dir [(''home.md'', File Regular), (''private'', UnreadableDir), (''zebra.md'', File Regular)]"

definition demoUpsertFails :: "string \<Rightarrow> bool" where
  "demoUpsertFails p = (p = ''home.md'')"

section \<open>Title derivation\<close>





lemma HasSuffix_iff: "strings_HasSuffix s suf \<longleftrightarrow> suffix suf s"
proof
  assume "strings_HasSuffix s suf"
  then have "drop (length s - length suf) s = suf" by (simp add: strings_HasSuffix_def)
  then have "s = take (length s - length suf) s @ suf"
    using append_take_drop_id [of "length s - length suf" s] by simp
  then show "suffix suf s" unfolding suffix_def ..
next
  assume "suffix suf s"
  then show "strings_HasSuffix s suf" by (auto simp: strings_HasSuffix_def suffix_def)
qed




















section \<open>The registry operations\<close>

lemma UpsertPage_present:
  "path \<in> Path ` set tbl \<Longrightarrow> UpsertPage u False path tbl = (None, tbl)"
  by (simp add: UpsertPage_def)

lemma UpsertPage_absent:
  "path \<notin> Path ` set tbl \<Longrightarrow>
   UpsertPage u False path tbl =
     (None, tbl @ [\<lparr>Path = path, Title = pathToTitle u path, IsVisible = True, VisitCount = 0\<rparr>])"
  by (simp add: UpsertPage_def)

lemma UpsertPage_fails: "UpsertPage u True path tbl = (Some DriverError, tbl)"
  by (simp add: UpsertPage_def)

lemma UpsertPage_has_row: "path \<in> Path ` set (snd (UpsertPage u False path tbl))"
  by (cases "path \<in> Path ` set tbl") (simp_all add: UpsertPage_present UpsertPage_absent)

lemma UpsertPage_primary_key:
  "primary_key tbl \<Longrightarrow> primary_key (snd (UpsertPage u f path tbl))"
  by (cases f; cases "path \<in> Path ` set tbl")
     (simp_all add: UpsertPage_present UpsertPage_absent UpsertPage_fails primary_key_def)

lemma upsert_again:
  "0 < n \<Longrightarrow> ((\<lambda>t. snd (UpsertPage u False path t)) ^^ n) tbl = snd (UpsertPage u False path tbl)"
proof (induction n)
  case 0
  then show ?case by simp
next
  case (Suc n)
  show ?case
  proof (cases "n = 0")
    case True
    then show ?thesis by simp
  next
    case False
    then have "((\<lambda>t. snd (UpsertPage u False path t)) ^^ n) tbl
               = snd (UpsertPage u False path tbl)"
      using Suc.IH by simp
    then show ?thesis
      using UpsertPage_has_row [of path u tbl] by (simp add: UpsertPage_present)
  qed
qed

lemma one_row:
  "primary_key tbl \<Longrightarrow> path \<in> Path ` set tbl \<Longrightarrow>
   length (filter (\<lambda>p. Path p = path) tbl) = 1"
proof (induction tbl)
  case Nil
  then show ?case by simp
next
  case (Cons a tbl)
  show ?case
  proof (cases "Path a = path")
    case True
    then have "path \<notin> Path ` set tbl" using Cons.prems(1) by (auto simp: primary_key_def)
    then have "filter (\<lambda>p. Path p = path) tbl = []" by (auto simp: filter_empty_conv)
    then show ?thesis using True by simp
  next
    case False
    then show ?thesis using Cons by (auto simp: primary_key_def)
  qed
qed

text \<open>
  C3. On a table that satisfies the primary key, any positive number of (successful)
  calls of \<open>UpsertPage\<close> with one path leaves exactly one row for that path; a further
  call changes nothing; when the path was present the table is unchanged (the title is
  not recomputed), and otherwise the only change is the new row, with the title derived
  from the path, visible, and with no visits.
\<close>

theorem UpsertPage_idempotent:
  assumes "primary_key tbl" and "0 < n"
  shows "let tbl' = ((\<lambda>t. snd (UpsertPage u False path t)) ^^ n) tbl
         in primary_key tbl' \<and>
            length (filter (\<lambda>p. Path p = path) tbl') = 1 \<and>
            UpsertPage u False path tbl' = (None, tbl') \<and>
            (if path \<in> Path ` set tbl then tbl' = tbl
             else tbl' = tbl @ [\<lparr>Path = path, Title = pathToTitle u path,
                                 IsVisible = True, VisitCount = 0\<rparr>])"
proof -
  let ?t = "snd (UpsertPage u False path tbl)"
  have eq: "((\<lambda>t. snd (UpsertPage u False path t)) ^^ n) tbl = ?t"
    using assms(2) by (rule upsert_again)
  have pk: "primary_key ?t" using assms(1) by (rule UpsertPage_primary_key)
  have has: "path \<in> Path ` set ?t" by (rule UpsertPage_has_row)
  have one: "length (filter (\<lambda>p. Path p = path) ?t) = 1" using pk has by (rule one_row)
  have noop: "UpsertPage u False path ?t = (None, ?t)" using has by (rule UpsertPage_present)
  have shape: "if path \<in> Path ` set tbl then ?t = tbl
     else ?t = tbl @ [\<lparr>Path = path, Title = pathToTitle u path, IsVisible = True, VisitCount = 0\<rparr>]"
    by (simp add: UpsertPage_present UpsertPage_absent)
  show ?thesis
    unfolding Let_def eq using pk one noop shape by simp
qed

theorem UpsertPage_idempotent_witness:
  "primary_key [\<lparr>Path = ''home.md'', Title = ''Start'', IsVisible = False, VisitCount = 7\<rparr>] \<and>
   ((\<lambda>t. snd (UpsertPage id False ''blog/my-first-post.md'' t)) ^^ 3)
      [\<lparr>Path = ''home.md'', Title = ''Start'', IsVisible = False, VisitCount = 7\<rparr>]
    = [\<lparr>Path = ''home.md'', Title = ''Start'', IsVisible = False, VisitCount = 7\<rparr>,
       \<lparr>Path = ''blog/my-first-post.md'', Title = ''My First Post'', IsVisible = True, VisitCount = 0\<rparr>]"
proof -
  let ?tbl = "[\<lparr>Path = ''home.md'', Title = ''Start'', IsVisible = False, VisitCount = 7\<rparr>]"
  have pk: "primary_key ?tbl" by (simp add: primary_key_def)
  have n: "0 < (3::nat)" by simp
  have t: "pathToTitle id ''blog/my-first-post.md'' = ''My First Post''" by code_simp
  show ?thesis
    using UpsertPage_idempotent [OF pk n, of id "''blog/my-first-post.md''"] pk t
    by (simp add: Let_def)
qed

lemma Toggle_map_absent:
  "path \<notin> Path ` set tbl \<Longrightarrow>
   map (\<lambda>p. if Path p = path then p\<lparr>IsVisible := \<not> IsVisible p\<rparr> else p) tbl = tbl"
  by (induction tbl) auto

lemma Toggle_map_twice:
  "map (\<lambda>p. if Path p = path then p\<lparr>IsVisible := \<not> IsVisible p\<rparr> else p)
     (map (\<lambda>p. if Path p = path then p\<lparr>IsVisible := \<not> IsVisible p\<rparr> else p) tbl) = tbl"
  by (induction tbl) auto

text \<open>
  C4 (as amended). \<open>ToggleVisibility\<close> on a path with no row returns no error and leaves
  the table unchanged; on any table it flips the visibility of the rows with that path
  and changes nothing else; two calls in a row restore the table; the only error it
  returns is the driver's, with the table unchanged.
\<close>

theorem ToggleVisibility_flips:
  "(path \<notin> Path ` set tbl \<longrightarrow> ToggleVisibility False path tbl = (None, tbl)) \<and>
   fst (ToggleVisibility False path tbl) = None \<and>
   length (snd (ToggleVisibility False path tbl)) = length tbl \<and>
   (\<forall>i < length tbl.
      snd (ToggleVisibility False path tbl) ! i =
        (if Path (tbl ! i) = path then (tbl ! i)\<lparr>IsVisible := \<not> IsVisible (tbl ! i)\<rparr>
         else tbl ! i)) \<and>
   snd (ToggleVisibility False path (snd (ToggleVisibility False path tbl))) = tbl \<and>
   ToggleVisibility True path tbl = (Some DriverError, tbl)"
  using Toggle_map_absent [of path tbl] Toggle_map_twice [of path tbl]
  by (simp add: ToggleVisibility_def del: map_map)

theorem ToggleVisibility_flips_witness:
  "''gone.md'' \<notin> Path ` set [\<lparr>Path = ''home.md'', Title = ''Home'', IsVisible = True, VisitCount = 2\<rparr>] \<and>
   ToggleVisibility False ''gone.md''
     [\<lparr>Path = ''home.md'', Title = ''Home'', IsVisible = True, VisitCount = 2\<rparr>]
     = (None, [\<lparr>Path = ''home.md'', Title = ''Home'', IsVisible = True, VisitCount = 2\<rparr>]) \<and>
   (0::nat) < length [\<lparr>Path = ''home.md'', Title = ''Home'', IsVisible = True, VisitCount = 2\<rparr>] \<and>
   snd (ToggleVisibility False ''home.md''
     [\<lparr>Path = ''home.md'', Title = ''Home'', IsVisible = True, VisitCount = 2\<rparr>]) ! 0
     = \<lparr>Path = ''home.md'', Title = ''Home'', IsVisible = False, VisitCount = 2\<rparr>"
proof -
  let ?tbl = "[\<lparr>Path = ''home.md'', Title = ''Home'', IsVisible = True, VisitCount = 2\<rparr>]"
  have a: "''gone.md'' \<notin> Path ` set ?tbl" by simp
  have b: "(0::nat) < length ?tbl" by simp
  from ToggleVisibility_flips [of "''gone.md''" ?tbl] a
  have c: "ToggleVisibility False ''gone.md'' ?tbl = (None, ?tbl)" by blast
  from ToggleVisibility_flips [of "''home.md''" ?tbl] b
  have "snd (ToggleVisibility False ''home.md'' ?tbl) ! 0 =
        (if Path (?tbl ! 0) = ''home.md'' then (?tbl ! 0)\<lparr>IsVisible := \<not> IsVisible (?tbl ! 0)\<rparr>
         else ?tbl ! 0)" by blast
  then have d: "snd (ToggleVisibility False ''home.md'' ?tbl) ! 0
     = \<lparr>Path = ''home.md'', Title = ''Home'', IsVisible = False, VisitCount = 2\<rparr>" by simp
  show ?thesis using a b c d by blast
qed

text \<open>
  The claim as stated fails: for a path that has no row (the lookup reports
  \<open>ErrNoRows\<close>), \<open>ToggleVisibility\<close> returns no error.
\<close>

theorem ToggleVisibility_absent_counterexample:
  "ToggleVisibility False ''gone.md'' [] = (None, []) \<and>
   GetPageByPath False ''gone.md'' [] = Inl ErrNoRows"
  by (simp add: ToggleVisibility_def GetPageByPath_def)

lemma TrimSuffix_append: "strings_TrimSuffix (stem @ suf) suf = stem"
  by (simp add: strings_TrimSuffix_def strings_HasSuffix_def)

lemma display_rewrite:
  assumes "p \<noteq> ''home''"
  shows "(if strings_TrimSuffix p ''.md'' = ''home'' then ''/'' else strings_TrimSuffix p ''.md'')
         = displayPath p"
proof (cases "strings_HasSuffix p ''.md''")
  case False
  then have "strings_TrimSuffix p ''.md'' = p" by (simp add: strings_TrimSuffix_def)
  moreover have "p \<noteq> ''home.md''" using False by (auto simp: strings_HasSuffix_def)
  ultimately show ?thesis using False assms by (simp add: displayPath_def)
next
  case True
  then obtain stem where p: "p = stem @ ''.md''"
    unfolding HasSuffix_iff suffix_def by blast
  have "strings_TrimSuffix p ''.md'' = stem" unfolding p by (rule TrimSuffix_append)
  moreover have "take (length p - length ''.md'') p = stem" unfolding p by simp
  moreover have "stem = ''home'' \<longleftrightarrow> p = ''home.md''" unfolding p by simp
  ultimately show ?thesis using True by (simp add: displayPath_def)
qed

lemma scanVisible_map:
  "''home'' \<notin> Path ` set rows \<Longrightarrow> scanVisible rows acc = acc @ map navEntry rows"
proof (induction rows arbitrary: acc)
  case Nil
  then show ?case by simp
next
  case (Cons row rows)
  have nh: "Path row \<noteq> ''home''" using Cons.prems by auto
  have rest: "''home'' \<notin> Path ` set rows" using Cons.prems by auto
  have "scanVisible (row # rows) acc = scanVisible rows (acc @ [navEntry row])"
    using display_rewrite [OF nh] by (auto simp: Let_def navEntry_def split: if_splits)
  then show ?case using Cons.IH [OF rest] by simp
qed

lemma HasSuffix_md_not_home: "strings_HasSuffix p ''.md'' \<Longrightarrow> p \<noteq> ''home''"
  by (auto simp: strings_HasSuffix_def)

lemma selectVisible_props:
  "mset (selectVisible tbl) = mset (filter IsVisible tbl) \<and>
   sorted (map Path (selectVisible tbl)) \<and>
   set (selectVisible tbl) = {r \<in> set tbl. IsVisible r}"
  by (simp add: selectVisible_def)

text \<open>
  C6. On a registry whose paths carry the extension (as every page identifier does),
  \<open>GetVisiblePages\<close> returns, for exactly the rows whose visibility flag is true and in
  ascending order of their stored paths, the display path and the title: \<open>home.md\<close> is
  shown as \<open>/\<close> and \<open>blog/post.md\<close> as \<open>blog/post\<close>.
\<close>

theorem GetVisiblePages_lists_visible:
  assumes "\<forall>r \<in> set tbl. strings_HasSuffix (Path r) ''.md''"
  shows "\<exists>rows. GetVisiblePages False tbl = Inr (map navEntry rows) \<and>
           mset rows = mset (filter IsVisible tbl) \<and>
           sorted (map Path rows) \<and>
           displayPath ''home.md'' = ''/'' \<and>
           displayPath ''blog/post.md'' = ''blog/post''"
proof -
  have "''home'' \<notin> Path ` set (selectVisible tbl)"
    using assms HasSuffix_md_not_home by (fastforce simp: selectVisible_props)
  then have "GetVisiblePages False tbl = Inr (map navEntry (selectVisible tbl))"
    by (simp add: GetVisiblePages_def scanVisible_map)
  moreover have "displayPath ''home.md'' = ''/''" by (simp add: displayPath_def)
  moreover have "displayPath ''blog/post.md'' = ''blog/post''" by code_simp
  ultimately show ?thesis using selectVisible_props [of tbl] by blast
qed

theorem GetVisiblePages_lists_visible_witness:
  "list_all (\<lambda>r. strings_HasSuffix (Path r) ''.md'') exampleRegistry \<and>
   (\<exists>rows. GetVisiblePages False exampleRegistry = Inr (map navEntry rows) \<and>
      mset rows = mset (filter IsVisible exampleRegistry) \<and> sorted (map Path rows)) \<and>
   GetVisiblePages False exampleRegistry =
     Inr [\<lparr>Path = ''blog/post'', Title = ''Post'', IsVisible = False, VisitCount = 0\<rparr>,
          \<lparr>Path = ''/'', Title = ''Home'', IsVisible = False, VisitCount = 0\<rparr>]"
proof -
  have h: "list_all (\<lambda>r. strings_HasSuffix (Path r) ''.md'') exampleRegistry" by code_simp
  then have h': "\<forall>r \<in> set exampleRegistry. strings_HasSuffix (Path r) ''.md''"
    by (simp add: list_all_iff)
  have v: "GetVisiblePages False exampleRegistry =
     Inr [\<lparr>Path = ''blog/post'', Title = ''Post'', IsVisible = False, VisitCount = 0\<rparr>,
          \<lparr>Path = ''/'', Title = ''Home'', IsVisible = False, VisitCount = 0\<rparr>]"
    by code_simp
  show ?thesis
    using GetVisiblePages_lists_visible [OF h'] h v by blast
qed

section \<open>Reconciling the content tree\<close>

lemma UpsertPage_error_iff: "fst (UpsertPage u f p t) = (if f then Some DriverError else None)"
  by (simp add: UpsertPage_def)

lemma syncVisit_dir: "syncVisit u uf comps name True st = st"
  by (simp add: syncVisit_def)

lemma syncVisit_file:
  "syncVisit u uf comps name False st =
     foldl (upsertFound u uf) st (markdownFiles comps name (File k))"
  by (cases st) (simp add: syncVisit_def upsertFound_def Let_def UpsertPage_error_iff)

lemma walk_readable:
  "readable node \<Longrightarrow>
     walkDir u uf comps name node st
       = (None, foldl (upsertFound u uf) st (markdownFiles comps name node))"
  "readableEntries es \<Longrightarrow>
     walkEntries u uf comps es st
       = (None, foldl (upsertFound u uf) st (markdownEntries comps es))"
proof (induction u uf comps name node st and u uf comps es st rule: walkDir_walkEntries.induct)
  case (1 u uf comps name k st)
  then show ?case using syncVisit_file [of u uf comps name st k] by simp
next
  case (2 u uf comps name st)
  then show ?case by simp
next
  case (3 u uf comps name es st)
  then show ?case by (simp add: syncVisit_dir)
next
  case (4 u uf comps st)
  then show ?case by simp
next
  case (5 u uf comps e es st)
  then show ?case by simp
qed

lemma walk_unreadable:
  "\<not> readable node \<Longrightarrow> fst (walkDir u uf comps name node st) = Some ReadDirError"
  "\<not> readableEntries es \<Longrightarrow> fst (walkEntries u uf comps es st) = Some ReadDirError"
proof (induction u uf comps name node st and u uf comps es st rule: walkDir_walkEntries.induct)
  case (1 u uf comps name k st)
  then show ?case by simp
next
  case (2 u uf comps name st)
  then show ?case by simp
next
  case (3 u uf comps name es st)
  then show ?case by simp
next
  case (4 u uf comps st)
  then show ?case by simp
next
  case (5 u uf comps e es st)
  show ?case
  proof (cases "readable (snd e)")
    case True
    then have "walkDir u uf (comps @ [fst e]) (fst e) (snd e) st
        = (None, foldl (upsertFound u uf) st (markdownFiles (comps @ [fst e]) (fst e) (snd e)))"
      by (rule walk_readable)
    moreover have "\<not> readableEntries es" using True "5.prems" by simp
    ultimately show ?thesis using "5.IH"(2) by simp
  next
    case False
    then have "fst (walkDir u uf (comps @ [fst e]) (fst e) (snd e) st) = Some ReadDirError"
      by (rule "5.IH"(1))
    then show ?thesis by (auto split: prod.splits option.splits)
  qed
qed

lemma foldl_upsertFound_paths:
  "Path ` set (fst (foldl (upsertFound u uf) st ps))
     = Path ` set (fst st) \<union> {p \<in> set ps. \<not> uf p}"
proof (induction ps arbitrary: st)
  case Nil
  then show ?case by simp
next
  case (Cons p ps)
  have "Path ` set (fst (upsertFound u uf st p))
        = Path ` set (fst st) \<union> (if uf p then {} else {p})"
    by (auto simp: upsertFound_def UpsertPage_def)
  then show ?case using Cons.IH [of "upsertFound u uf st p"] by auto
qed

lemma foldl_upsertFound_log:
  "snd (foldl (upsertFound u uf) st ps)
     = snd st @ concat (map (\<lambda>p. LogFound p # (if uf p then [LogUpsertFailed p] else [])) ps)"
  by (induction ps arbitrary: st) (simp_all add: upsertFound_def)

lemma upsertFound_keeps:
  "\<exists>new. fst (upsertFound u uf st p) = fst st @ new \<and>
     list_all (\<lambda>r. r = \<lparr>Path = Path r, Title = pathToTitle u (Path r),
                          IsVisible = True, VisitCount = 0\<rparr>) new"
proof (cases "uf p \<or> p \<in> set (map Path (fst st))")
  case True
  then have "fst (upsertFound u uf st p) = fst st @ []"
    by (auto simp: upsertFound_def UpsertPage_def)
  then show ?thesis by (metis list.pred_inject(1))
next
  case False
  then have "fst (upsertFound u uf st p)
      = fst st @ [\<lparr>Path = p, Title = pathToTitle u p, IsVisible = True, VisitCount = 0\<rparr>]"
    by (simp add: upsertFound_def UpsertPage_def)
  moreover have "list_all (\<lambda>r. r = \<lparr>Path = Path r, Title = pathToTitle u (Path r),
                          IsVisible = True, VisitCount = 0\<rparr>)
      [\<lparr>Path = p, Title = pathToTitle u p, IsVisible = True, VisitCount = 0\<rparr>]"
    by simp
  ultimately show ?thesis by blast
qed

lemma foldl_upsertFound_keeps:
  "\<exists>new. fst (foldl (upsertFound u uf) st ps) = fst st @ new \<and>
     list_all (\<lambda>r. r = \<lparr>Path = Path r, Title = pathToTitle u (Path r),
                          IsVisible = True, VisitCount = 0\<rparr>) new"
proof (induction ps arbitrary: st)
  case Nil
  have "fst (foldl (upsertFound u uf) st []) = fst st @ []" by simp
  then show ?case by (metis list.pred_inject(1))
next
  case (Cons p ps)
  obtain n1 where 1: "fst (upsertFound u uf st p) = fst st @ n1"
    and a1: "list_all (\<lambda>r. r = \<lparr>Path = Path r, Title = pathToTitle u (Path r),
                          IsVisible = True, VisitCount = 0\<rparr>) n1"
    using upsertFound_keeps by blast
  obtain n2 where 2: "fst (foldl (upsertFound u uf) (upsertFound u uf st p) ps)
      = fst (upsertFound u uf st p) @ n2"
    and a2: "list_all (\<lambda>r. r = \<lparr>Path = Path r, Title = pathToTitle u (Path r),
                          IsVisible = True, VisitCount = 0\<rparr>) n2"
    using Cons.IH by blast
  have "fst (foldl (upsertFound u uf) st (p # ps)) = fst st @ (n1 @ n2)"
    using 1 2 by simp
  moreover have "list_all (\<lambda>r. r = \<lparr>Path = Path r, Title = pathToTitle u (Path r),
                          IsVisible = True, VisitCount = 0\<rparr>) (n1 @ n2)"
    using a1 a2 by simp
  ultimately show ?case by blast
qed

lemma foldl_upsertFound_found:
  assumes "p \<in> set ps"
  shows "LogFound p \<in> set (snd (foldl (upsertFound u uf) st ps)) \<and>
         (if uf p then LogUpsertFailed p \<in> set (snd (foldl (upsertFound u uf) st ps))
          else p \<in> Path ` set (fst (foldl (upsertFound u uf) st ps)))"
  using assms by (auto simp: foldl_upsertFound_log foldl_upsertFound_paths)

lemma markdownEntries_member:
  "(c, child) \<in> set es \<Longrightarrow>
   set (markdownFiles (pre @ [c]) c child) \<subseteq> set (markdownEntries pre es)"
  by (induction es) auto

lemma markdownFiles_complete:
  "entryAt node comps target \<Longrightarrow> target = File k \<Longrightarrow>
   strings_HasSuffix (entryName name comps) ''.md'' \<Longrightarrow>
   relPath (pre @ comps) \<in> set (markdownFiles pre name node)"
proof (induction node comps target arbitrary: pre name rule: entryAt.induct)
  case (here n)
  then show ?case by (simp add: entryName_def)
next
  case (below c child es comps n)
  have "strings_HasSuffix (entryName c comps) ''.md''"
    using below.prems(2) by (simp add: entryName_def)
  then have "relPath ((pre @ [c]) @ comps) \<in> set (markdownFiles (pre @ [c]) c child)"
    using below.IH [OF below.prems(1)] by blast
  then have "relPath (pre @ c # comps) \<in> set (markdownEntries pre es)"
    using markdownEntries_member [OF below.hyps(1), of pre] by auto
  then show ?case by simp
qed

lemma markdownFiles_sound:
  "p \<in> set (markdownFiles pre name node) \<Longrightarrow>
     \<exists>comps k. entryAt node comps (File k) \<and>
        strings_HasSuffix (entryName name comps) ''.md'' \<and> p = relPath (pre @ comps)"
  "p \<in> set (markdownEntries pre es) \<Longrightarrow>
     \<exists>c child comps k. (c, child) \<in> set es \<and> entryAt child comps (File k) \<and>
        strings_HasSuffix (entryName c comps) ''.md'' \<and> p = relPath (pre @ c # comps)"
proof (induction pre name node and pre es rule: markdownFiles_markdownEntries.induct)
  case (1 comps name k)
  then have "strings_HasSuffix name ''.md''" "p = relPath comps" by (auto split: if_splits)
  then have "entryAt (File k) [] (File k) \<and>
        strings_HasSuffix (entryName name []) ''.md'' \<and> p = relPath (comps @ [])"
    by (simp add: entryAt.here entryName_def)
  then show ?case by blast
next
  case (2 comps name)
  then show ?case by simp
next
  case (3 comps name es)
  then obtain c child cs k where
    h: "(c, child) \<in> set es" "entryAt child cs (File k)"
       "strings_HasSuffix (entryName c cs) ''.md''" "p = relPath (comps @ c # cs)"
    by auto
  have "entryAt (Dir es) (c # cs) (File k)" using h(1,2) by (rule entryAt.below)
  moreover have "strings_HasSuffix (entryName name (c # cs)) ''.md''"
    using h(3) by (simp add: entryName_def)
  ultimately show ?case using h(4) by blast
next
  case (4 comps)
  then show ?case by simp
next
  case (5 comps e es)
  from "5.prems" consider
    (a) "p \<in> set (markdownFiles (comps @ [fst e]) (fst e) (snd e))" |
    (b) "p \<in> set (markdownEntries comps es)" by auto
  then show ?case
  proof cases
    case a
    then obtain cs k where
      "entryAt (snd e) cs (File k)" "strings_HasSuffix (entryName (fst e) cs) ''.md''"
      "p = relPath ((comps @ [fst e]) @ cs)"
      using "5.IH"(1) by blast
    moreover have "(fst e, snd e) \<in> set (e # es)" by simp
    ultimately show ?thesis by (metis append.assoc append_Cons append_Nil)
  next
    case b
    then obtain c child cs k where
      "(c, child) \<in> set es" "entryAt child cs (File k)"
      "strings_HasSuffix (entryName c cs) ''.md''" "p = relPath (comps @ c # cs)"
      using "5.IH"(2) by blast
    then show ?thesis by (metis list.set_intros(2))
  qed
qed

lemma markdownFiles_entries:
  "set (markdownFiles [] rootName node) =
     {relPath comps | comps k. entryAt node comps (File k) \<and>
         strings_HasSuffix (entryName rootName comps) ''.md''}"
proof (intro set_eqI iffI)
  fix p
  assume "p \<in> set (markdownFiles [] rootName node)"
  then show "p \<in> {relPath comps | comps k. entryAt node comps (File k) \<and>
         strings_HasSuffix (entryName rootName comps) ''.md''}"
    using markdownFiles_sound(1) [of p "[]" rootName node] by auto
next
  fix p
  assume "p \<in> {relPath comps | comps k. entryAt node comps (File k) \<and>
         strings_HasSuffix (entryName rootName comps) ''.md''}"
  then obtain comps k where "entryAt node comps (File k)"
    "strings_HasSuffix (entryName rootName comps) ''.md''" "p = relPath comps" by blast
  then show "p \<in> set (markdownFiles [] rootName node)"
    using markdownFiles_complete [of node comps "File k" k rootName "[]"] by simp
qed

lemma Sync_missing_root:
  "Sync u uf rootName None tbl = (Some (WalkFailed LstatError), tbl, [LogSyncStart])"
  by (simp add: Sync_def)

lemma Sync_unreadable:
  "\<not> readable node \<Longrightarrow> fst (Sync u uf rootName (Some node) tbl) = Some (WalkFailed ReadDirError)"
  using walk_unreadable(1) [of node u uf "[]" rootName "(tbl, [LogSyncStart])"]
  by (auto simp: Sync_def split: prod.splits option.splits)

lemma Sync_unreadable_root:
  "Sync u uf rootName (Some UnreadableDir) tbl
     = (Some (WalkFailed ReadDirError), tbl, [LogSyncStart])"
  by (simp add: Sync_def syncVisit_dir)

lemma Sync_readable:
  assumes "readable node"
  shows "Sync u uf rootName (Some node) tbl =
     (None,
      fst (foldl (upsertFound u uf) (tbl, [LogSyncStart]) (markdownFiles [] rootName node)),
      snd (foldl (upsertFound u uf) (tbl, [LogSyncStart]) (markdownFiles [] rootName node))
        @ [LogSyncFinished])"
  using walk_readable(1) [OF assms, of u uf "[]" rootName "(tbl, [LogSyncStart])"]
  by (simp add: Sync_def)

text \<open>
  C5. When the tree below the root can be enumerated, \<open>Sync\<close> returns no error and has
  upserted, in the order of the walk, the relative slash-separated path of every entry
  that is not a directory (a regular file in particular) and whose name ends with
  \<open>.md\<close>: every such entry is logged as found; its path is in the registry afterwards
  unless its upsert failed, in which case the failure is logged and the walk goes on to
  the remaining files; the registry keeps its rows and gains only fresh rows (derived
  title, visible, no visits) for exactly the paths whose upsert did not fail. When the
  root is missing, or the root or a directory below it cannot be read, \<open>Sync\<close> returns an
  error.
\<close>

theorem Sync_reconciles_tree:
  "(readable node \<longrightarrow>
      (\<exists>tbl' lg. Sync u uf rootName (Some node) tbl = (None, tbl', lg) \<and>
         tbl' = fst (foldl (upsertFound u uf) (tbl, [LogSyncStart]) (markdownFiles [] rootName node)) \<and>
         Path ` set tbl' = Path ` set tbl \<union> {p \<in> set (markdownFiles [] rootName node). \<not> uf p} \<and>
         (\<exists>new. tbl' = tbl @ new \<and>
            list_all (\<lambda>r. r = \<lparr>Path = Path r, Title = pathToTitle u (Path r),
                                 IsVisible = True, VisitCount = 0\<rparr>) new) \<and>
         lg = LogSyncStart #
              concat (map (\<lambda>p. LogFound p # (if uf p then [LogUpsertFailed p] else []))
                        (markdownFiles [] rootName node)) @ [LogSyncFinished] \<and>
         (\<forall>comps k. entryAt node comps (File k) \<and>
              strings_HasSuffix (entryName rootName comps) ''.md'' \<longrightarrow>
            LogFound (relPath comps) \<in> set lg \<and>
            (if uf (relPath comps) then LogUpsertFailed (relPath comps) \<in> set lg
             else relPath comps \<in> Path ` set tbl')))) \<and>
   set (markdownFiles [] rootName node) =
     {relPath comps | comps k. entryAt node comps (File k) \<and>
         strings_HasSuffix (entryName rootName comps) ''.md''} \<and>
   (\<not> readable node \<longrightarrow>
      fst (Sync u uf rootName (Some node) tbl) = Some (WalkFailed ReadDirError)) \<and>
   Sync u uf rootName (Some UnreadableDir) tbl
     = (Some (WalkFailed ReadDirError), tbl, [LogSyncStart]) \<and>
   Sync u uf rootName None tbl = (Some (WalkFailed LstatError), tbl, [LogSyncStart])"
proof -
  let ?md = "markdownFiles [] rootName node"
  let ?st = "foldl (upsertFound u uf) (tbl, [LogSyncStart]) ?md"
  have a: "Path ` set (fst ?st) = Path ` set tbl \<union> {p \<in> set ?md. \<not> uf p}"
    using foldl_upsertFound_paths [of u uf "(tbl, [LogSyncStart])"] by simp
  have b: "\<exists>new. fst ?st = tbl @ new \<and>
            list_all (\<lambda>r. r = \<lparr>Path = Path r, Title = pathToTitle u (Path r),
                                 IsVisible = True, VisitCount = 0\<rparr>) new"
    using foldl_upsertFound_keeps [of u uf "(tbl, [LogSyncStart])"] by simp
  have c: "snd ?st @ [LogSyncFinished] = LogSyncStart #
              concat (map (\<lambda>p. LogFound p # (if uf p then [LogUpsertFailed p] else [])) ?md)
                @ [LogSyncFinished]"
    by (simp add: foldl_upsertFound_log)
  have d: "LogFound (relPath comps) \<in> set (snd ?st @ [LogSyncFinished]) \<and>
            (if uf (relPath comps) then LogUpsertFailed (relPath comps) \<in> set (snd ?st @ [LogSyncFinished])
             else relPath comps \<in> Path ` set (fst ?st))"
    if "entryAt node comps (File k) \<and> strings_HasSuffix (entryName rootName comps) ''.md''"
    for comps k
  proof -
    have "relPath comps \<in> set ?md"
      using that markdownFiles_complete [of node comps "File k" k rootName "[]"] by simp
    from foldl_upsertFound_found [OF this, of u uf "(tbl, [LogSyncStart])"]
    show ?thesis by (simp split: if_splits)
  qed
  have ok: "readable node \<longrightarrow>
      (\<exists>tbl' lg. Sync u uf rootName (Some node) tbl = (None, tbl', lg) \<and>
         tbl' = fst ?st \<and>
         Path ` set tbl' = Path ` set tbl \<union> {p \<in> set ?md. \<not> uf p} \<and>
         (\<exists>new. tbl' = tbl @ new \<and>
            list_all (\<lambda>r. r = \<lparr>Path = Path r, Title = pathToTitle u (Path r),
                                 IsVisible = True, VisitCount = 0\<rparr>) new) \<and>
         lg = LogSyncStart #
              concat (map (\<lambda>p. LogFound p # (if uf p then [LogUpsertFailed p] else [])) ?md)
                @ [LogSyncFinished] \<and>
         (\<forall>comps k. entryAt node comps (File k) \<and>
              strings_HasSuffix (entryName rootName comps) ''.md'' \<longrightarrow>
            LogFound (relPath comps) \<in> set lg \<and>
            (if uf (relPath comps) then LogUpsertFailed (relPath comps) \<in> set lg
             else relPath comps \<in> Path ` set tbl')))"
  proof
    assume r: "readable node"
    have s: "Sync u uf rootName (Some node) tbl = (None, fst ?st, snd ?st @ [LogSyncFinished])"
      using Sync_readable [OF r, of u uf rootName tbl] by simp
    show "\<exists>tbl' lg. Sync u uf rootName (Some node) tbl = (None, tbl', lg) \<and>
         tbl' = fst ?st \<and>
         Path ` set tbl' = Path ` set tbl \<union> {p \<in> set ?md. \<not> uf p} \<and>
         (\<exists>new. tbl' = tbl @ new \<and>
            list_all (\<lambda>r. r = \<lparr>Path = Path r, Title = pathToTitle u (Path r),
                                 IsVisible = True, VisitCount = 0\<rparr>) new) \<and>
         lg = LogSyncStart #
              concat (map (\<lambda>p. LogFound p # (if uf p then [LogUpsertFailed p] else [])) ?md)
                @ [LogSyncFinished] \<and>
         (\<forall>comps k. entryAt node comps (File k) \<and>
              strings_HasSuffix (entryName rootName comps) ''.md'' \<longrightarrow>
            LogFound (relPath comps) \<in> set lg \<and>
            (if uf (relPath comps) then LogUpsertFailed (relPath comps) \<in> set lg
             else relPath comps \<in> Path ` set tbl'))"
    proof (rule exI [of _ "fst ?st"], rule exI [of _ "snd ?st @ [LogSyncFinished]"],
        intro conjI allI impI)
      show "Sync u uf rootName (Some node) tbl = (None, fst ?st, snd ?st @ [LogSyncFinished])"
        by (rule s)
      show "fst ?st = fst ?st" ..
      show "Path ` set (fst ?st) = Path ` set tbl \<union> {p \<in> set ?md. \<not> uf p}" by (rule a)
      show "\<exists>new. fst ?st = tbl @ new \<and>
            list_all (\<lambda>r. r = \<lparr>Path = Path r, Title = pathToTitle u (Path r),
                                 IsVisible = True, VisitCount = 0\<rparr>) new" by (rule b)
      show "snd ?st @ [LogSyncFinished] = LogSyncStart #
              concat (map (\<lambda>p. LogFound p # (if uf p then [LogUpsertFailed p] else [])) ?md)
                @ [LogSyncFinished]" by (rule c)
    next
      fix comps k
      assume h: "entryAt node comps (File k) \<and>
              strings_HasSuffix (entryName rootName comps) ''.md''"
      show "LogFound (relPath comps) \<in> set (snd ?st @ [LogSyncFinished])"
        using d [OF h] by (rule conjunct1)
      show "if uf (relPath comps) then LogUpsertFailed (relPath comps) \<in> set (snd ?st @ [LogSyncFinished])
             else relPath comps \<in> Path ` set (fst ?st)"
        using d [OF h] by (rule conjunct2)
    qed
  qed
  show ?thesis
  proof (intro conjI)
    show "readable node \<longrightarrow>
      (\<exists>tbl' lg. Sync u uf rootName (Some node) tbl = (None, tbl', lg) \<and>
         tbl' = fst ?st \<and>
         Path ` set tbl' = Path ` set tbl \<union> {p \<in> set ?md. \<not> uf p} \<and>
         (\<exists>new. tbl' = tbl @ new \<and>
            list_all (\<lambda>r. r = \<lparr>Path = Path r, Title = pathToTitle u (Path r),
                                 IsVisible = True, VisitCount = 0\<rparr>) new) \<and>
         lg = LogSyncStart #
              concat (map (\<lambda>p. LogFound p # (if uf p then [LogUpsertFailed p] else [])) ?md)
                @ [LogSyncFinished] \<and>
         (\<forall>comps k. entryAt node comps (File k) \<and>
              strings_HasSuffix (entryName rootName comps) ''.md'' \<longrightarrow>
            LogFound (relPath comps) \<in> set lg \<and>
            (if uf (relPath comps) then LogUpsertFailed (relPath comps) \<in> set lg
             else relPath comps \<in> Path ` set tbl')))" by (rule ok)
    show "set ?md = {relPath comps | comps k. entryAt node comps (File k) \<and>
         strings_HasSuffix (entryName rootName comps) ''.md''}"
      by (rule markdownFiles_entries)
    show "\<not> readable node \<longrightarrow>
      fst (Sync u uf rootName (Some node) tbl) = Some (WalkFailed ReadDirError)"
      using Sync_unreadable [of node u uf rootName tbl] by blast
    show "Sync u uf rootName (Some UnreadableDir) tbl
       = (Some (WalkFailed ReadDirError), tbl, [LogSyncStart])"
      by (rule Sync_unreadable_root)
    show "Sync u uf rootName None tbl = (Some (WalkFailed LstatError), tbl, [LogSyncStart])"
      by (rule Sync_missing_root)
  qed
qed

theorem Sync_reconciles_tree_witness:
  "readable demoTree \<and>
   entryAt demoTree [''blog'', ''post.md''] (File Regular) \<and>
   strings_HasSuffix (entryName ''content'' [''blog'', ''post.md'']) ''.md'' \<and>
   relPath [''blog'', ''post.md''] = ''blog/post.md'' \<and>
   markdownFiles [] ''content'' demoTree = [''blog/post.md'', ''home.md''] \<and>
   Sync id demoUpsertFails ''content'' (Some demoTree) [] =
     (None,
      [\<lparr>Path = ''blog/post.md'', Title = ''Post'', IsVisible = True, VisitCount = 0\<rparr>],
      [LogSyncStart, LogFound ''blog/post.md'', LogFound ''home.md'',
       LogUpsertFailed ''home.md'', LogSyncFinished]) \<and>
   \<not> readable demoBrokenTree \<and>
   fst (Sync id demoUpsertFails ''content'' (Some demoBrokenTree) []) = Some (WalkFailed ReadDirError)"
proof -
  have r: "readable demoTree" by code_simp
  have m: "markdownFiles [] ''content'' demoTree = [''blog/post.md'', ''home.md'']" by code_simp
  have n: "\<not> readable demoBrokenTree" by code_simp
  have t: "pathToTitle id ''blog/post.md'' = ''Post''" by code_simp
  note T = Sync_reconciles_tree [of demoTree id demoUpsertFails "''content''" "[]"]
  note B = Sync_reconciles_tree [of demoBrokenTree id demoUpsertFails "''content''" "[]"]
  have "\<exists>tbl' lg. Sync id demoUpsertFails ''content'' (Some demoTree) [] = (None, tbl', lg) \<and>
      tbl' = fst (foldl (upsertFound id demoUpsertFails) ([], [LogSyncStart])
                  (markdownFiles [] ''content'' demoTree)) \<and>
      Path ` set tbl' = Path ` set ([]::pages) \<union>
          {p \<in> set (markdownFiles [] ''content'' demoTree). \<not> demoUpsertFails p} \<and>
      (\<exists>new. tbl' = [] @ new \<and>
            list_all (\<lambda>r. r = \<lparr>Path = Path r, Title = pathToTitle id (Path r),
                                 IsVisible = True, VisitCount = 0\<rparr>) new) \<and>
      lg = LogSyncStart #
          concat (map (\<lambda>p. LogFound p # (if demoUpsertFails p then [LogUpsertFailed p] else []))
                    (markdownFiles [] ''content'' demoTree)) @ [LogSyncFinished] \<and>
      (\<forall>comps k. entryAt demoTree comps (File k) \<and>
              strings_HasSuffix (entryName ''content'' comps) ''.md'' \<longrightarrow>
            LogFound (relPath comps) \<in> set lg \<and>
            (if demoUpsertFails (relPath comps) then LogUpsertFailed (relPath comps) \<in> set lg
             else relPath comps \<in> Path ` set tbl'))"
    (is "\<exists>tbl' lg. ?P tbl' lg")
    by (rule T [THEN conjunct1, THEN mp, OF r])
  then obtain tbl' where "\<exists>lg. ?P tbl' lg" ..
  then obtain lg where all: "?P tbl' lg" ..
  have s: "Sync id demoUpsertFails ''content'' (Some demoTree) [] = (None, tbl', lg)"
    using all by (rule conjunct1)
  have t': "tbl' = fst (foldl (upsertFound id demoUpsertFails) ([], [LogSyncStart])
                  (markdownFiles [] ''content'' demoTree))"
    using all [THEN conjunct2] by (rule conjunct1)
  have l: "lg = LogSyncStart #
          concat (map (\<lambda>p. LogFound p # (if demoUpsertFails p then [LogUpsertFailed p] else []))
                    (markdownFiles [] ''content'' demoTree)) @ [LogSyncFinished]"
    using all [THEN conjunct2, THEN conjunct2, THEN conjunct2, THEN conjunct2]
    by (rule conjunct1)
  have tv: "tbl' = [\<lparr>Path = ''blog/post.md'', Title = ''Post'', IsVisible = True, VisitCount = 0\<rparr>]"
    unfolding t' m by (simp add: upsertFound_def demoUpsertFails_def UpsertPage_def t)
  have lv: "lg = [LogSyncStart, LogFound ''blog/post.md'', LogFound ''home.md'',
       LogUpsertFailed ''home.md'', LogSyncFinished]"
    unfolding l m by (simp add: demoUpsertFails_def)
  have e: "fst (Sync id demoUpsertFails ''content'' (Some demoBrokenTree) [])
      = Some (WalkFailed ReadDirError)"
    using B [THEN conjunct2, THEN conjunct2, THEN conjunct1] n by (rule mp)
  have en: "entryAt demoTree [''blog'', ''post.md''] (File Regular)"
    unfolding demoTree_def
    by (rule entryAt.below [where child = "Dir [(''notes.txt'', File Regular), (''post.md'', File Regular)]"],
        simp, rule entryAt.below [where child = "File Regular"], simp, rule entryAt.here)
  have sf: "strings_HasSuffix (entryName ''content'' [''blog'', ''post.md'']) ''.md''"
    by code_simp
  have rp: "relPath [''blog'', ''post.md''] = ''blog/post.md''" by simp
  show ?thesis using r en sf rp m s tv lv n e by simp
qed

section \<open>The webhook handler\<close>

lemma constantTimeLoop_eq:
  "length x = length y \<Longrightarrow> constantTimeLoop x y d = (d \<or> x \<noteq> y)"
  by (induction x y arbitrary: d rule: list_induct2) auto

lemma hmac_Equal_iff: "hmac_Equal x y \<longleftrightarrow> x = y"
  by (auto simp: hmac_Equal_def constantTimeLoop_eq)





lemma expectedSignature_nonempty: "expectedSignature h secret body \<noteq> []"
  by (simp add: expectedSignature_def)




lemma handleWebhook_valid:
  "Header_Get hdr = expectedSignature h secret body \<Longrightarrow>
   handleWebhook h j secret \<lparr>SignatureHeader = hdr, RawBody = Some body\<rparr> =
     (case j body of
        None \<Rightarrow> (http_Error ''Invalid payload'' 400, False)
      | Some pl \<Rightarrow>
          (if \<not> snd (refOf pl) \<or>
              (fst (refOf pl) \<noteq> ''refs/heads/main'' \<and> fst (refOf pl) \<noteq> ''refs/heads/master'')
           then (\<lparr>StatusCode = 200, Headers = [],
                   RespBody = ''Payload received, but not for main/master branch. Ignoring.''\<rparr>,
                 False)
           else (\<lparr>StatusCode = 202, Headers = [],
                   RespBody = ''Webhook accepted. Processing update.''\<rparr>, True)))"
  using expectedSignature_nonempty [of h secret body]
  by (simp add: handleWebhook_def hmac_Equal_iff expectedSignature_def Let_def
      split: option.splits)







text \<open>
  C2. For a delivery with a valid signature: an unparsable body is answered with 400; a
  parsed body whose \<open>ref\<close> is absent, not a string, or neither \<open>refs/heads/main\<close> nor
  \<open>refs/heads/master\<close> is answered with 200 and nothing is started; a \<open>ref\<close> equal to one
  of the two starts the pull-then-reconcile goroutine and is answered with 202, the same
  response whatever the pull and the reconciliation do afterwards. The started work is
  \<open>PullRepo\<close> followed by \<open>Sync\<close>: when the pull fails the registry is left as it was
  and only the failure is logged; when it succeeds the registry becomes the one \<open>Sync\<close>
  returns for the pulled working copy, and the outcome of \<open>Sync\<close> goes to the log only.
\<close>

theorem handleWebhook_dispatches_on_ref:
  assumes "Header_Get hdr = expectedSignature h secret body"
  shows
   "(j body = None \<longrightarrow>
       serveWebhook h j secret u gitPull uf rootName \<lparr>SignatureHeader = hdr, RawBody = Some body\<rparr> w
         = (http_Error ''Invalid payload'' 400, w)) \<and>
    (\<forall>pl. j body = Some pl \<and>
        (\<forall>ref. pl ''ref'' = Some (JString ref) \<longrightarrow>
             ref \<noteq> ''refs/heads/main'' \<and> ref \<noteq> ''refs/heads/master'') \<longrightarrow>
       handleWebhook h j secret \<lparr>SignatureHeader = hdr, RawBody = Some body\<rparr>
         = (\<lparr>StatusCode = 200, Headers = [],
              RespBody = ''Payload received, but not for main/master branch. Ignoring.''\<rparr>, False) \<and>
       serveWebhook h j secret u gitPull uf rootName \<lparr>SignatureHeader = hdr, RawBody = Some body\<rparr> w
         = (\<lparr>StatusCode = 200, Headers = [],
              RespBody = ''Payload received, but not for main/master branch. Ignoring.''\<rparr>, w)) \<and>
    (\<forall>pl ref. j body = Some pl \<and> pl ''ref'' = Some (JString ref) \<and>
        (ref = ''refs/heads/main'' \<or> ref = ''refs/heads/master'') \<longrightarrow>
       handleWebhook h j secret \<lparr>SignatureHeader = hdr, RawBody = Some body\<rparr>
         = (\<lparr>StatusCode = 202, Headers = [],
              RespBody = ''Webhook accepted. Processing update.''\<rparr>, True) \<and>
       serveWebhook h j secret u gitPull uf rootName \<lparr>SignatureHeader = hdr, RawBody = Some body\<rparr> w
         = (\<lparr>StatusCode = 202, Headers = [],
              RespBody = ''Webhook accepted. Processing update.''\<rparr>,
            webhookUpdate u gitPull uf rootName w) \<and>
       (\<forall>err wt. PullRepo gitPull (worktree w) = (Some err, wt) \<longrightarrow>
          snd (serveWebhook h j secret u gitPull uf rootName
                 \<lparr>SignatureHeader = hdr, RawBody = Some body\<rparr> w)
            = w\<lparr>worktree := wt, logged := logged w @ [LogPullFailed]\<rparr>) \<and>
       (\<forall>wt. PullRepo gitPull (worktree w) = (None, wt) \<longrightarrow>
          snd (serveWebhook h j secret u gitPull uf rootName
                 \<lparr>SignatureHeader = hdr, RawBody = Some body\<rparr> w)
            = w\<lparr>worktree := wt,
                registry := fst (snd (Sync u uf rootName wt (registry w))),
                logged := logged w @ [LogPulled] @ snd (snd (Sync u uf rootName wt (registry w)))
                  @ [if fst (Sync u uf rootName wt (registry w)) = None
                     then LogSyncComplete else LogSyncFailed]\<rparr>))"
proof -
  note v = handleWebhook_valid [OF assms, of j]
  have pull_failed: "webhookUpdate u gitPull uf rootName w
      = w\<lparr>worktree := wt, logged := logged w @ [LogPullFailed]\<rparr>"
    if "PullRepo gitPull (worktree w) = (Some err, wt)" for err wt
    using that by (simp add: webhookUpdate_def)
  have pull_ok: "webhookUpdate u gitPull uf rootName w
      = w\<lparr>worktree := wt,
          registry := fst (snd (Sync u uf rootName wt (registry w))),
          logged := logged w @ [LogPulled] @ snd (snd (Sync u uf rootName wt (registry w)))
            @ [if fst (Sync u uf rootName wt (registry w)) = None
               then LogSyncComplete else LogSyncFailed]\<rparr>"
    if "PullRepo gitPull (worktree w) = (None, wt)" for wt
    using that by (simp add: webhookUpdate_def split: prod.splits option.splits)
  have p1: "j body = None \<longrightarrow>
       serveWebhook h j secret u gitPull uf rootName \<lparr>SignatureHeader = hdr, RawBody = Some body\<rparr> w
         = (http_Error ''Invalid payload'' 400, w)"
    by (simp add: serveWebhook_def v)
  have untracked: "\<not> snd (refOf pl) \<or>
        (fst (refOf pl) \<noteq> ''refs/heads/main'' \<and> fst (refOf pl) \<noteq> ''refs/heads/master'')"
    if "\<forall>ref. pl ''ref'' = Some (JString ref) \<longrightarrow>
             ref \<noteq> ''refs/heads/main'' \<and> ref \<noteq> ''refs/heads/master''" for pl
    using that by (auto simp: refOf_def split: option.splits jvalue.splits)
  have tracked: "snd (refOf pl) \<and> fst (refOf pl) = ref"
    if "pl ''ref'' = Some (JString ref)" for pl ref
    using that by (simp add: refOf_def)
  show ?thesis
  proof (intro conjI allI impI)
    show "serveWebhook h j secret u gitPull uf rootName \<lparr>SignatureHeader = hdr, RawBody = Some body\<rparr> w
         = (http_Error ''Invalid payload'' 400, w)" if "j body = None"
      using that p1 by simp
  next
    fix pl
    assume a: "j body = Some pl \<and>
        (\<forall>ref. pl ''ref'' = Some (JString ref) \<longrightarrow>
             ref \<noteq> ''refs/heads/main'' \<and> ref \<noteq> ''refs/heads/master'')"
    then have u: "\<not> snd (refOf pl) \<or>
        (fst (refOf pl) \<noteq> ''refs/heads/main'' \<and> fst (refOf pl) \<noteq> ''refs/heads/master'')"
      using untracked by blast
    show "handleWebhook h j secret \<lparr>SignatureHeader = hdr, RawBody = Some body\<rparr>
         = (\<lparr>StatusCode = 200, Headers = [],
              RespBody = ''Payload received, but not for main/master branch. Ignoring.''\<rparr>, False)"
      using a u by (simp add: v)
    then show "serveWebhook h j secret u gitPull uf rootName \<lparr>SignatureHeader = hdr, RawBody = Some body\<rparr> w
         = (\<lparr>StatusCode = 200, Headers = [],
              RespBody = ''Payload received, but not for main/master branch. Ignoring.''\<rparr>, w)"
      by (simp add: serveWebhook_def)
  next
    fix pl ref
    assume a: "j body = Some pl \<and> pl ''ref'' = Some (JString ref) \<and>
        (ref = ''refs/heads/main'' \<or> ref = ''refs/heads/master'')"
    then have t: "snd (refOf pl) \<and> fst (refOf pl) = ref" using tracked by blast
    show "handleWebhook h j secret \<lparr>SignatureHeader = hdr, RawBody = Some body\<rparr>
         = (\<lparr>StatusCode = 202, Headers = [],
              RespBody = ''Webhook accepted. Processing update.''\<rparr>, True)"
      using a t by (auto simp: v)
    then show served: "serveWebhook h j secret u gitPull uf rootName \<lparr>SignatureHeader = hdr, RawBody = Some body\<rparr> w
         = (\<lparr>StatusCode = 202, Headers = [],
              RespBody = ''Webhook accepted. Processing update.''\<rparr>,
            webhookUpdate u gitPull uf rootName w)"
      by (simp add: serveWebhook_def)
    show "snd (serveWebhook h j secret u gitPull uf rootName
                 \<lparr>SignatureHeader = hdr, RawBody = Some body\<rparr> w)
            = w\<lparr>worktree := wt, logged := logged w @ [LogPullFailed]\<rparr>"
      if "PullRepo gitPull (worktree w) = (Some err, wt)" for err wt
      using pull_failed [OF that] served by simp
    show "snd (serveWebhook h j secret u gitPull uf rootName
                 \<lparr>SignatureHeader = hdr, RawBody = Some body\<rparr> w)
            = w\<lparr>worktree := wt,
                registry := fst (snd (Sync u uf rootName wt (registry w))),
                logged := logged w @ [LogPulled] @ snd (snd (Sync u uf rootName wt (registry w)))
                  @ [if fst (Sync u uf rootName wt (registry w)) = None
                     then LogSyncComplete else LogSyncFailed]\<rparr>"
      if "PullRepo gitPull (worktree w) = (None, wt)" for wt
      using pull_ok [OF that] served by simp
  qed
qed


lemma Sync_demo:
  "Sync id (\<lambda>p. False) ''content'' (Some (Dir [(''home.md'', File Regular)])) []
     = (None,
        [\<lparr>Path = ''home.md'', Title = ''Home'', IsVisible = True, VisitCount = 0\<rparr>],
        [LogSyncStart, LogFound ''home.md'', LogSyncFinished])"
  by code_simp

theorem handleWebhook_dispatches_on_ref_witness:
  "Header_Get [expectedSignature demoHmac ''k'' ''junk''] = expectedSignature demoHmac ''k'' ''junk'' \<and>
   demoUnmarshal ''junk'' = None \<and>
   serveWebhook demoHmac demoUnmarshal ''k'' id demoGit (\<lambda>p. False) ''content''
       \<lparr>SignatureHeader = [expectedSignature demoHmac ''k'' ''junk''], RawBody = Some ''junk''\<rparr>
       demoWorld
     = (http_Error ''Invalid payload'' 400, demoWorld) \<and>
   demoUnmarshal ''develop'' = Some developPayload \<and>
   developPayload ''ref'' = Some (JString ''refs/heads/develop'') \<and>
   serveWebhook demoHmac demoUnmarshal ''k'' id demoGit (\<lambda>p. False) ''content''
       \<lparr>SignatureHeader = [expectedSignature demoHmac ''k'' ''develop''], RawBody = Some ''develop''\<rparr>
       demoWorld
     = (\<lparr>StatusCode = 200, Headers = [],
          RespBody = ''Payload received, but not for main/master branch. Ignoring.''\<rparr>, demoWorld) \<and>
   demoUnmarshal ''main'' = Some mainPayload \<and>
   mainPayload ''ref'' = Some (JString ''refs/heads/main'') \<and>
   PullRepo demoGit (worktree demoWorld) = (None, Some (Dir [(''home.md'', File Regular)])) \<and>
   serveWebhook demoHmac demoUnmarshal ''k'' id demoGit (\<lambda>p. False) ''content''
       \<lparr>SignatureHeader = [expectedSignature demoHmac ''k'' ''main''], RawBody = Some ''main''\<rparr>
       demoWorld
     = (\<lparr>StatusCode = 202, Headers = [],
          RespBody = ''Webhook accepted. Processing update.''\<rparr>,
        \<lparr>worktree = Some (Dir [(''home.md'', File Regular)]),
         registry = [\<lparr>Path = ''home.md'', Title = ''Home'', IsVisible = True, VisitCount = 0\<rparr>],
         logged = [LogPulled, LogSyncStart, LogFound ''home.md'', LogSyncFinished,
                   LogSyncComplete]\<rparr>) \<and>
   PullRepo demoGitFails (worktree demoWorld) = (Some (GitPullFailed ''fatal''), None) \<and>
   serveWebhook demoHmac demoUnmarshal ''k'' id demoGitFails (\<lambda>p. False) ''content''
       \<lparr>SignatureHeader = [expectedSignature demoHmac ''k'' ''main''], RawBody = Some ''main''\<rparr>
       demoWorld
     = (\<lparr>StatusCode = 202, Headers = [],
          RespBody = ''Webhook accepted. Processing update.''\<rparr>,
        \<lparr>worktree = None, registry = [], logged = [LogPullFailed]\<rparr>)"
proof -
  have s: "Header_Get [expectedSignature demoHmac ''k'' b] = expectedSignature demoHmac ''k'' b" for b
    by (simp add: Header_Get_def)
  have j: "demoUnmarshal ''junk'' = None" by (simp add: demoUnmarshal_def)
  have d1: "demoUnmarshal ''develop'' = Some developPayload" by (simp add: demoUnmarshal_def)
  have d2: "developPayload ''ref'' = Some (JString ''refs/heads/develop'')"
    by (simp add: developPayload_def)
  have d3: "\<forall>ref. developPayload ''ref'' = Some (JString ref) \<longrightarrow>
             ref \<noteq> ''refs/heads/main'' \<and> ref \<noteq> ''refs/heads/master''"
    by (simp add: developPayload_def)
  have m1: "demoUnmarshal ''main'' = Some mainPayload" by (simp add: demoUnmarshal_def)
  have m2: "mainPayload ''ref'' = Some (JString ''refs/heads/main'')" by (simp add: mainPayload_def)
  have g1: "PullRepo demoGit (worktree demoWorld) = (None, Some (Dir [(''home.md'', File Regular)]))"
    by (simp add: PullRepo_def demoGit_def)
  have g2: "PullRepo demoGitFails (worktree demoWorld) = (Some (GitPullFailed ''fatal''), None)"
    by (simp add: PullRepo_def demoGitFails_def demoWorld_def)
  have r1: "serveWebhook demoHmac demoUnmarshal ''k'' id demoGit (\<lambda>p. False) ''content''
       \<lparr>SignatureHeader = [expectedSignature demoHmac ''k'' ''junk''], RawBody = Some ''junk''\<rparr>
       demoWorld
     = (http_Error ''Invalid payload'' 400, demoWorld)"
    using handleWebhook_dispatches_on_ref [OF s [of "''junk''"], of demoUnmarshal id demoGit
        "\<lambda>p. False" "''content''" demoWorld] j by blast
  have r2: "serveWebhook demoHmac demoUnmarshal ''k'' id demoGit (\<lambda>p. False) ''content''
       \<lparr>SignatureHeader = [expectedSignature demoHmac ''k'' ''develop''], RawBody = Some ''develop''\<rparr>
       demoWorld
     = (\<lparr>StatusCode = 200, Headers = [],
          RespBody = ''Payload received, but not for main/master branch. Ignoring.''\<rparr>, demoWorld)"
    using handleWebhook_dispatches_on_ref [OF s [of "''develop''"], of demoUnmarshal id demoGit
        "\<lambda>p. False" "''content''" demoWorld] d1 d3 by blast
  let ?d = "\<lparr>SignatureHeader = [expectedSignature demoHmac ''k'' ''main''], RawBody = Some ''main''\<rparr>"
  have a3: "serveWebhook demoHmac demoUnmarshal ''k'' id demoGit (\<lambda>p. False) ''content'' ?d demoWorld
       = (\<lparr>StatusCode = 202, Headers = [], RespBody = ''Webhook accepted. Processing update.''\<rparr>,
          webhookUpdate id demoGit (\<lambda>p. False) ''content'' demoWorld) \<and>
     (\<forall>wt. PullRepo demoGit (worktree demoWorld) = (None, wt) \<longrightarrow>
     snd (serveWebhook demoHmac demoUnmarshal ''k'' id demoGit (\<lambda>p. False) ''content'' ?d demoWorld)
       = demoWorld\<lparr>worktree := wt,
           registry := fst (snd (Sync id (\<lambda>p. False) ''content'' wt (registry demoWorld))),
           logged := logged demoWorld @ [LogPulled]
             @ snd (snd (Sync id (\<lambda>p. False) ''content'' wt (registry demoWorld)))
             @ [if fst (Sync id (\<lambda>p. False) ''content'' wt (registry demoWorld)) = None
                then LogSyncComplete else LogSyncFailed]\<rparr>)"
    using handleWebhook_dispatches_on_ref [OF s [of "''main''"], of demoUnmarshal id demoGit
        "\<lambda>p. False" "''content''" demoWorld] m1 m2 by blast
  have r3: "fst (serveWebhook demoHmac demoUnmarshal ''k'' id demoGit (\<lambda>p. False) ''content'' ?d demoWorld)
       = \<lparr>StatusCode = 202, Headers = [], RespBody = ''Webhook accepted. Processing update.''\<rparr> \<and>
     snd (serveWebhook demoHmac demoUnmarshal ''k'' id demoGit (\<lambda>p. False) ''content'' ?d demoWorld)
       = demoWorld\<lparr>worktree := Some (Dir [(''home.md'', File Regular)]),
           registry := fst (snd (Sync id (\<lambda>p. False) ''content''
                         (Some (Dir [(''home.md'', File Regular)])) (registry demoWorld))),
           logged := logged demoWorld @ [LogPulled]
             @ snd (snd (Sync id (\<lambda>p. False) ''content''
                           (Some (Dir [(''home.md'', File Regular)])) (registry demoWorld)))
             @ [if fst (Sync id (\<lambda>p. False) ''content''
                           (Some (Dir [(''home.md'', File Regular)])) (registry demoWorld)) = None
                then LogSyncComplete else LogSyncFailed]\<rparr>"
  proof
    show "fst (serveWebhook demoHmac demoUnmarshal ''k'' id demoGit (\<lambda>p. False) ''content'' ?d demoWorld)
       = \<lparr>StatusCode = 202, Headers = [], RespBody = ''Webhook accepted. Processing update.''\<rparr>"
      using a3 by simp
    from a3 have "\<forall>wt. PullRepo demoGit (worktree demoWorld) = (None, wt) \<longrightarrow>
       snd (serveWebhook demoHmac demoUnmarshal ''k'' id demoGit (\<lambda>p. False) ''content'' ?d demoWorld)
       = demoWorld\<lparr>worktree := wt,
           registry := fst (snd (Sync id (\<lambda>p. False) ''content'' wt (registry demoWorld))),
           logged := logged demoWorld @ [LogPulled]
             @ snd (snd (Sync id (\<lambda>p. False) ''content'' wt (registry demoWorld)))
             @ [if fst (Sync id (\<lambda>p. False) ''content'' wt (registry demoWorld)) = None
                then LogSyncComplete else LogSyncFailed]\<rparr>" ..
    from this [rule_format, OF g1]
    show "snd (serveWebhook demoHmac demoUnmarshal ''k'' id demoGit (\<lambda>p. False) ''content'' ?d demoWorld)
       = demoWorld\<lparr>worktree := Some (Dir [(''home.md'', File Regular)]),
           registry := fst (snd (Sync id (\<lambda>p. False) ''content''
                         (Some (Dir [(''home.md'', File Regular)])) (registry demoWorld))),
           logged := logged demoWorld @ [LogPulled]
             @ snd (snd (Sync id (\<lambda>p. False) ''content''
                           (Some (Dir [(''home.md'', File Regular)])) (registry demoWorld)))
             @ [if fst (Sync id (\<lambda>p. False) ''content''
                           (Some (Dir [(''home.md'', File Regular)])) (registry demoWorld)) = None
                then LogSyncComplete else LogSyncFailed]\<rparr>" .
  qed
  have r3': "serveWebhook demoHmac demoUnmarshal ''k'' id demoGit (\<lambda>p. False) ''content'' ?d demoWorld
     = (\<lparr>StatusCode = 202, Headers = [],
          RespBody = ''Webhook accepted. Processing update.''\<rparr>,
        \<lparr>worktree = Some (Dir [(''home.md'', File Regular)]),
         registry = [\<lparr>Path = ''home.md'', Title = ''Home'', IsVisible = True, VisitCount = 0\<rparr>],
         logged = [LogPulled, LogSyncStart, LogFound ''home.md'', LogSyncFinished,
                   LogSyncComplete]\<rparr>)"
    using r3 by (simp add: prod_eq_iff demoWorld_def Sync_demo)
  have a4: "serveWebhook demoHmac demoUnmarshal ''k'' id demoGitFails (\<lambda>p. False) ''content'' ?d demoWorld
       = (\<lparr>StatusCode = 202, Headers = [], RespBody = ''Webhook accepted. Processing update.''\<rparr>,
          webhookUpdate id demoGitFails (\<lambda>p. False) ''content'' demoWorld) \<and>
     (\<forall>err wt. PullRepo demoGitFails (worktree demoWorld) = (Some err, wt) \<longrightarrow>
     snd (serveWebhook demoHmac demoUnmarshal ''k'' id demoGitFails (\<lambda>p. False) ''content'' ?d demoWorld)
       = demoWorld\<lparr>worktree := wt, logged := logged demoWorld @ [LogPullFailed]\<rparr>)"
    using handleWebhook_dispatches_on_ref [OF s [of "''main''"], of demoUnmarshal id demoGitFails
        "\<lambda>p. False" "''content''" demoWorld] m1 m2 by blast
  have r4: "fst (serveWebhook demoHmac demoUnmarshal ''k'' id demoGitFails (\<lambda>p. False) ''content'' ?d demoWorld)
       = \<lparr>StatusCode = 202, Headers = [], RespBody = ''Webhook accepted. Processing update.''\<rparr> \<and>
     snd (serveWebhook demoHmac demoUnmarshal ''k'' id demoGitFails (\<lambda>p. False) ''content'' ?d demoWorld)
       = demoWorld\<lparr>worktree := None, logged := logged demoWorld @ [LogPullFailed]\<rparr>"
  proof
    show "fst (serveWebhook demoHmac demoUnmarshal ''k'' id demoGitFails (\<lambda>p. False) ''content'' ?d demoWorld)
       = \<lparr>StatusCode = 202, Headers = [], RespBody = ''Webhook accepted. Processing update.''\<rparr>"
      using a4 by simp
    from a4 have "\<forall>err wt. PullRepo demoGitFails (worktree demoWorld) = (Some err, wt) \<longrightarrow>
     snd (serveWebhook demoHmac demoUnmarshal ''k'' id demoGitFails (\<lambda>p. False) ''content'' ?d demoWorld)
       = demoWorld\<lparr>worktree := wt, logged := logged demoWorld @ [LogPullFailed]\<rparr>" ..
    from this [rule_format, OF g2]
    show "snd (serveWebhook demoHmac demoUnmarshal ''k'' id demoGitFails (\<lambda>p. False) ''content'' ?d demoWorld)
       = demoWorld\<lparr>worktree := None, logged := logged demoWorld @ [LogPullFailed]\<rparr>" .
  qed
  have r4': "serveWebhook demoHmac demoUnmarshal ''k'' id demoGitFails (\<lambda>p. False) ''content'' ?d demoWorld
     = (\<lparr>StatusCode = 202, Headers = [],
          RespBody = ''Webhook accepted. Processing update.''\<rparr>,
        \<lparr>worktree = None, registry = [], logged = [LogPullFailed]\<rparr>)"
    using r4 by (simp add: prod_eq_iff demoWorld_def)
  show ?thesis
    using s [of "''junk''"] j r1 d1 d2 r2 m1 m2 g1 r3' g2 r4' by simp
qed

section \<open>The administration toggle\<close>

lemma URLParam_toggle_route: "chi_URLParam (toggleRouteParams segment) ''*'' = []"
  by (simp add: chi_URLParam_def toggleRouteParams_def)

lemma handleAdminToggleVisibility_wildcard:
  "p \<noteq> [] \<Longrightarrow>
   snd (snd (handleAdminToggleVisibility driverFails [(''*'', p)] tbl))
     = [if strings_HasSuffix p ''.md'' then p else p @ ''.md'']"
  by (simp add: handleAdminToggleVisibility_def chi_URLParam_def Let_def split: option.splits)

text \<open>
  C8 (the code departs from the claim). The handler reads the URL parameter \<open>*\<close>, while
  the route \<open>/pages/{pagePath}/toggle\<close> binds the page path to \<open>pagePath\<close>: for every
  request that reaches it through the registered route the handler answers 400
  \<open>Page path is required\<close>, the registry is unchanged and \<open>ToggleVisibility\<close> is not called.
\<close>

theorem handleAdminToggleVisibility_route_never_toggles:
  "handleAdminToggleVisibility driverFails (toggleRouteParams segment) tbl
     = (http_Error ''Page path is required'' 400, tbl, [])"
  by (simp add: handleAdminToggleVisibility_def URLParam_toggle_route)

section \<open>Serving a page\<close>

lemma GetPageByPath_absent:
  "path \<notin> Path ` set tbl \<Longrightarrow> GetPageByPath False path tbl = Inl ErrNoRows"
proof -
  assume "path \<notin> Path ` set tbl"
  then have "find (\<lambda>p. Path p = path) tbl = None" by (auto simp: find_None_iff)
  then show ?thesis by (simp add: GetPageByPath_def)
qed

lemma renderPage_hidden:
  "GetPageByPath (getPageFails env) path tbl = Inr page \<Longrightarrow> \<not> IsVisible page \<Longrightarrow>
   renderPage env tbl path = (http_Error ''Page not found'' 404, [])"
  by (simp add: renderPage_def)

lemma renderPage_absent:
  "path \<notin> Path ` set tbl \<Longrightarrow> renderPage env tbl path = (http_Error ''Page not found'' 404, [])"
  by (cases "getPageFails env")
     (simp_all add: renderPage_def GetPageByPath_absent, simp add: GetPageByPath_def)

text \<open>
  C10. For a path whose row is hidden, \<open>renderPage\<close> answers 404 \<open>Page not found\<close> without
  having opened a file or started a visit increment, exactly as it does for a path that
  has no row.
\<close>

theorem renderPage_hidden_as_absent:
  "(GetPageByPath (getPageFails env) path tbl = Inr page \<and> \<not> IsVisible page \<longrightarrow>
      renderPage env tbl path = (http_Error ''Page not found'' 404, [])) \<and>
   (path' \<notin> Path ` set tbl' \<longrightarrow>
      renderPage env' tbl' path' = (http_Error ''Page not found'' 404, []))"
  using renderPage_hidden [of env path tbl page] renderPage_absent [of path' tbl' env']
  by blast

theorem renderPage_hidden_as_absent_witness:
  "GetPageByPath (getPageFails demoEnv) ''draft.md'' exampleRegistry
     = Inr \<lparr>Path = ''draft.md'', Title = ''Draft'', IsVisible = False, VisitCount = 0\<rparr> \<and>
   \<not> IsVisible \<lparr>Path = ''draft.md'', Title = ''Draft'', IsVisible = False, VisitCount = 0\<rparr> \<and>
   renderPage demoEnv exampleRegistry ''draft.md'' = (http_Error ''Page not found'' 404, []) \<and>
   ''gone.md'' \<notin> Path ` set exampleRegistry \<and>
   renderPage demoEnv exampleRegistry ''gone.md'' = (http_Error ''Page not found'' 404, []) \<and>
   renderPage demoEnv exampleRegistry ''home.md''
     = (\<lparr>StatusCode = 200, Headers = [], RespBody = ''text''\<rparr>,
        [OpenFile ''home.md'', StartedIncrement ''home.md''])"
proof -
  have a: "GetPageByPath (getPageFails demoEnv) ''draft.md'' exampleRegistry
     = Inr \<lparr>Path = ''draft.md'', Title = ''Draft'', IsVisible = False, VisitCount = 0\<rparr>"
    by (simp add: GetPageByPath_def demoEnv_def exampleRegistry_def)
  have b: "\<not> IsVisible \<lparr>Path = ''draft.md'', Title = ''Draft'', IsVisible = False, VisitCount = 0\<rparr>"
    by simp
  have c: "''gone.md'' \<notin> Path ` set exampleRegistry" by (simp add: exampleRegistry_def)
  have d: "renderPage demoEnv exampleRegistry ''home.md''
     = (\<lparr>StatusCode = 200, Headers = [], RespBody = ''text''\<rparr>,
        [OpenFile ''home.md'', StartedIncrement ''home.md''])"
    by code_simp
  show ?thesis
    using renderPage_hidden_as_absent [of demoEnv "''draft.md''" exampleRegistry
        "\<lparr>Path = ''draft.md'', Title = ''Draft'', IsVisible = False, VisitCount = 0\<rparr>"
        "''gone.md''" exampleRegistry demoEnv] a b c d
    by blast
qed

section \<open>Concurrent deliveries\<close>

lemma deliver_many:
  assumes "snd (handleWebhook h j secret r)"
  shows "(step h j secret)\<^sup>*\<^sup>* ts (ts @ replicate n Pulling)"
proof (induction n)
  case 0
  then show ?case by simp
next
  case (Suc n)
  have "step h j secret (ts @ replicate n Pulling) ((ts @ replicate n Pulling) @ [Pulling])"
    using assms by (rule step.deliver)
  moreover have "(ts @ replicate n Pulling) @ [Pulling] = ts @ replicate (Suc n) Pulling"
    by (simp add: replicate_append_same)
  ultimately show ?case using Suc.IH by (metis rtranclp.rtrancl_into_rtrancl)
qed

lemma overlap_reachable:
  assumes "snd (handleWebhook h j secret r)"
  shows "(step h j secret)\<^sup>*\<^sup>* [] [Reconciling, Pulling]"
proof -
  have 1: "step h j secret [] ([] @ [Pulling])" using assms by (rule step.deliver)
  have 2: "step h j secret [Pulling] ([Pulling][0 := Reconciling])"
    by (rule step.pull_ok) simp_all
  have 3: "step h j secret [Reconciling] ([Reconciling] @ [Pulling])"
    using assms by (rule step.deliver)
  from 1 2 3 show ?thesis
    by (simp add: rtranclp.rtrancl_into_rtrancl [OF rtranclp.rtrancl_into_rtrancl [OF r_into_rtranclp]])
qed

lemma reconcile_after_pull:
  assumes "step h j secret ts ts'" and "i < length ts'" and "ts' ! i = Reconciling"
  shows "i < length ts \<and> (ts ! i = Pulling \<or> ts ! i = Reconciling)"
  using assms
proof (cases rule: step.cases)
  case (deliver r)
  then show ?thesis using assms(2,3) by (auto simp: nth_append split: if_splits)
next
  case (ignore r)
  then show ?thesis using assms(2,3) by simp
next
  case (pull_ok k)
  then show ?thesis using assms(2,3) by (cases "i = k") auto
next
  case (pull_failed k)
  then show ?thesis using assms(2,3) by (cases "i = k") auto
next
  case (sync_returns k)
  then show ?thesis using assms(2,3) by (cases "i = k") auto
qed

lemma all_inProgress: "length (filter inProgress (replicate n Pulling)) = n"
  by (simp add: inProgress_def)

lemma demo_triggers:
  "snd (handleWebhook demoHmac demoUnmarshal ''k''
     \<lparr>SignatureHeader = [expectedSignature demoHmac ''k'' ''main''], RawBody = Some ''main''\<rparr>)"
proof -
  have "Header_Get [expectedSignature demoHmac ''k'' ''main''] = expectedSignature demoHmac ''k'' ''main''"
    by (simp add: Header_Get_def)
  from handleWebhook_valid [OF this, of demoUnmarshal]
  show ?thesis by (simp add: demoUnmarshal_def refOf_def mainPayload_def)
qed

text \<open>
  C9 (as amended). Nothing serializes the Sync Operations: every accepted delivery for a
  tracked branch starts its own pull-then-reconcile goroutine and no lock is taken, so
  any number of them can be in progress at once, and one can be pulling while another
  is reconciling. Inside one operation the reconciliation starts only from a pull of
  that operation that has succeeded.
\<close>

theorem sync_operations_not_serialized:
  "(snd (handleWebhook h j secret r) \<longrightarrow>
      (step h j secret)\<^sup>*\<^sup>* [] (replicate n Pulling) \<and>
      length (filter inProgress (replicate n Pulling)) = n \<and>
      (step h j secret)\<^sup>*\<^sup>* [] [Reconciling, Pulling]) \<and>
   (step h j secret ts ts' \<and> i < length ts' \<and> ts' ! i = Reconciling \<longrightarrow>
      i < length ts \<and> (ts ! i = Pulling \<or> ts ! i = Reconciling))"
  using deliver_many [of h j secret r "[]" n] overlap_reachable [of h j secret r]
    reconcile_after_pull [of h j secret ts ts' i] all_inProgress [of n]
  by auto

theorem sync_operations_not_serialized_witness:
  "snd (handleWebhook demoHmac demoUnmarshal ''k''
     \<lparr>SignatureHeader = [expectedSignature demoHmac ''k'' ''main''], RawBody = Some ''main''\<rparr>) \<and>
   (step demoHmac demoUnmarshal ''k'')\<^sup>*\<^sup>* [] (replicate 3 Pulling) \<and>
   length (filter inProgress (replicate 3 Pulling)) = 3 \<and>
   step demoHmac demoUnmarshal ''k'' [Pulling] [Reconciling] \<and>
   (0::nat) < length [Reconciling] \<and> [Reconciling] ! 0 = Reconciling \<and>
   [Pulling] ! 0 = Pulling"
proof -
  have s: "step demoHmac demoUnmarshal ''k'' [Pulling] ([Pulling][0 := Reconciling])"
    by (rule step.pull_ok) simp_all
  then have s': "step demoHmac demoUnmarshal ''k'' [Pulling] [Reconciling]" by simp
  have "i < length [Pulling] \<and> ([Pulling] ! i = Pulling \<or> [Pulling] ! i = Reconciling)"
    if "i = 0" for i :: nat
    using sync_operations_not_serialized [of demoHmac demoUnmarshal "''k''" _ _ "[Pulling]" "[Reconciling]" i]
      s' that by simp
  then have p: "[Pulling] ! 0 = Pulling" by simp
  show ?thesis
    using sync_operations_not_serialized [of demoHmac demoUnmarshal "''k''"
        "\<lparr>SignatureHeader = [expectedSignature demoHmac ''k'' ''main''], RawBody = Some ''main''\<rparr>"
        3 "[Pulling]" "[Reconciling]" 0] demo_triggers s' p
    by simp
qed

text \<open>
  The claim as stated fails: two accepted deliveries lead to a state in which one
  operation is reconciling while a second one is pulling.
\<close>

theorem sync_operations_overlap_counterexample:
  "(step demoHmac demoUnmarshal ''k'')\<^sup>*\<^sup>* [] [Reconciling, Pulling] \<and>
   length (filter inProgress [Reconciling, Pulling]) = 2"
  using overlap_reachable [OF demo_triggers] by (simp add: inProgress_def)

end
